theory Spec2Isabelle
  imports Complex_Main "HOL-Library.AList"
begin

section \<open>Errors, values, columns and frames\<close>

text \<open>
  The notebook works on pandas data frames.  A frame is modelled as its row labels
  (the index) and an ordered association list of named, typed columns.  Floating-point
  cells are exact reals extended with the three special values of a float: rounding,
  overflow and the sign of zero are not modelled.  Timestamps are calendar dates (the
  notebook only handles midnight timestamps).  Every exception the Python code can
  raise is a value of \<open>error\<close>.
\<close>

datatype error = KeyError | ValueError | TypeError | AttributeError | ModelError

definition and_then :: "error + 'a \<Rightarrow> ('a \<Rightarrow> error + 'b) \<Rightarrow> error + 'b" where
  "and_then r f = (case r of Inl e \<Rightarrow> Inl e | Inr x \<Rightarrow> f x)"

datatype fval = NaN | Num real | PInf | NInf

record date =
  year :: int
  month :: int
  day :: int

text \<open>A column has a dtype: floats (and integers), timestamps (\<open>None\<close> is NaT) or Python
  objects holding strings (\<open>None\<close> is a missing value).\<close>

datatype column = NumCol "fval list" | DateCol "date option list" | StrCol "string option list"

record frame =
  index :: "int list"
  columns :: "(string \<times> column) list"

fun col_len :: "column \<Rightarrow> nat" where
  "col_len (NumCol xs) = length xs"
| "col_len (DateCol ds) = length ds"
| "col_len (StrCol ss) = length ss"

text \<open>\<open>len(df)\<close> and \<open>df.shape[0]\<close>.\<close>

definition nrows :: "frame \<Rightarrow> nat" where
  "nrows df = length (index df)"

text \<open>A pandas frame has one cell per row in every column; column names are taken to be unique.\<close>

definition wf_frame :: "frame \<Rightarrow> bool" where
  "wf_frame df = (list_all (\<lambda>nc. col_len (snd nc) = nrows df) (columns df)
                  \<and> distinct (map fst (columns df)))"

text \<open>\<open>df[name]\<close> raises KeyError for a missing column; \<open>df[name] = c\<close> replaces the column in
  place or appends it as the last column.\<close>

definition getitem :: "frame \<Rightarrow> string \<Rightarrow> error + column" where
  "getitem df name = (case map_of (columns df) name of None \<Rightarrow> Inl KeyError | Some c \<Rightarrow> Inr c)"

definition setitem :: "frame \<Rightarrow> string \<Rightarrow> column \<Rightarrow> frame" where
  "setitem df name c = df\<lparr>columns := AList.update name c (columns df)\<rparr>"

text \<open>Selecting the rows at given positions, in the given order.\<close>

fun col_take_rows :: "nat list \<Rightarrow> column \<Rightarrow> column" where
  "col_take_rows ps (NumCol xs) = NumCol (map ((!) xs) ps)"
| "col_take_rows ps (DateCol ds) = DateCol (map ((!) ds) ps)"
| "col_take_rows ps (StrCol ss) = StrCol (map ((!) ss) ps)"

definition take_rows :: "nat list \<Rightarrow> frame \<Rightarrow> frame" where
  "take_rows ps df = \<lparr>index = map ((!) (index df)) ps,
                      columns = map (\<lambda>nc. (fst nc, col_take_rows ps (snd nc))) (columns df)\<rparr>"

section \<open>Dates\<close>

text \<open>The proleptic Gregorian ordinal of a date, as Python's \<open>date.toordinal\<close> computes it
  (1 January of year 1 is day 1).\<close>

definition is_leap :: "int \<Rightarrow> bool" where
  "is_leap y = (y mod 4 = 0 \<and> (y mod 100 \<noteq> 0 \<or> y mod 400 = 0))"

definition days_in_month :: "int \<Rightarrow> int \<Rightarrow> int" where
  "days_in_month y m =
     (if m = 2 then (if is_leap y then 29 else 28)
      else if m = 4 \<or> m = 6 \<or> m = 9 \<or> m = 11 then 30 else 31)"

definition days_before_year :: "int \<Rightarrow> int" where
  "days_before_year y = (let y1 = y - 1 in y1 * 365 + y1 div 4 - y1 div 100 + y1 div 400)"

definition days_before_month :: "int \<Rightarrow> int \<Rightarrow> int" where
  "days_before_month y m = (\<Sum>k \<leftarrow> [1..<nat m]. days_in_month y (int k))"

definition toordinal :: "date \<Rightarrow> int" where
  "toordinal d = days_before_year (year d) + days_before_month (year d) (month d) + day d"

section \<open>Floating-point cells\<close>

text \<open>Arithmetic and comparison of float cells follow IEEE 754 on the special values:
  NaN is absorbing and compares false, a non-zero number divided by zero is infinite.\<close>

fun fneg :: "fval \<Rightarrow> fval" where
  "fneg NaN = NaN"
| "fneg (Num x) = Num (- x)"
| "fneg PInf = NInf"
| "fneg NInf = PInf"

fun fadd :: "fval \<Rightarrow> fval \<Rightarrow> fval" where
  "fadd (Num x) (Num y) = Num (x + y)"
| "fadd NaN _ = NaN"
| "fadd _ NaN = NaN"
| "fadd PInf NInf = NaN"
| "fadd NInf PInf = NaN"
| "fadd PInf _ = PInf"
| "fadd _ PInf = PInf"
| "fadd NInf _ = NInf"
| "fadd _ NInf = NInf"

definition fsub :: "fval \<Rightarrow> fval \<Rightarrow> fval" where
  "fsub a b = fadd a (fneg b)"

fun fsign :: "fval \<Rightarrow> int" where
  "fsign NaN = 0"
| "fsign (Num x) = (if 0 < x then 1 else if x < 0 then - 1 else 0)"
| "fsign PInf = 1"
| "fsign NInf = - 1"

definition finf :: "int \<Rightarrow> fval" where
  "finf s = (if 0 < s then PInf else if s < 0 then NInf else NaN)"

fun fmul :: "fval \<Rightarrow> fval \<Rightarrow> fval" where
  "fmul (Num x) (Num y) = Num (x * y)"
| "fmul NaN _ = NaN"
| "fmul _ NaN = NaN"
| "fmul a b = finf (fsign a * fsign b)"

fun fdiv :: "fval \<Rightarrow> fval \<Rightarrow> fval" where
  "fdiv (Num x) (Num y) = (if y = 0 then finf (fsign (Num x)) else Num (x / y))"
| "fdiv NaN _ = NaN"
| "fdiv _ NaN = NaN"
| "fdiv (Num x) _ = Num 0"
| "fdiv a (Num y) = finf (fsign a * (if y < 0 then - 1 else 1))"
| "fdiv _ _ = NaN"

fun fgt :: "fval \<Rightarrow> fval \<Rightarrow> bool" where
  "fgt (Num x) (Num y) = (y < x)"
| "fgt NaN _ = False"
| "fgt _ NaN = False"
| "fgt PInf PInf = False"
| "fgt PInf _ = True"
| "fgt NInf _ = False"
| "fgt _ PInf = False"
| "fgt _ NInf = True"

definition flt :: "fval \<Rightarrow> fval \<Rightarrow> bool" where
  "flt a b = fgt b a"

section \<open>Series operations\<close>

text \<open>\<open>s.shift(k)\<close> moves the values \<open>k\<close> rows down (up for a negative \<open>k\<close>) and fills the
  vacated rows with the missing value.\<close>

definition shift_list :: "'a \<Rightarrow> int \<Rightarrow> 'a list \<Rightarrow> 'a list" where
  "shift_list fill k xs =
     (if 0 \<le> k then replicate (min (nat k) (length xs)) fill @ take (length xs - nat k) xs
      else drop (nat (- k)) xs @ replicate (min (nat (- k)) (length xs)) fill)"

fun col_shift :: "int \<Rightarrow> column \<Rightarrow> column" where
  "col_shift k (NumCol xs) = NumCol (shift_list NaN k xs)"
| "col_shift k (DateCol ds) = DateCol (shift_list None k ds)"
| "col_shift k (StrCol ss) = StrCol (shift_list None k ss)"

text \<open>Elementwise \<open>a > b\<close> of two columns of one frame.  A comparison with NaN, NaT or a
  missing object is false; two strings compare as Python compares them, character by
  character, a proper prefix being the smaller; comparing columns of different dtypes
  raises TypeError.\<close>

fun str_lt :: "string \<Rightarrow> string \<Rightarrow> bool" where
  "str_lt [] [] = False"
| "str_lt [] (y # ys) = True"
| "str_lt (x # xs) [] = False"
| "str_lt (x # xs) (y # ys) = ((of_char x :: nat) < of_char y \<or> (x = y \<and> str_lt xs ys))"

definition str_gt :: "string option \<Rightarrow> string option \<Rightarrow> bool" where
  "str_gt a b = (case (a, b) of (Some x, Some y) \<Rightarrow> str_lt y x | _ \<Rightarrow> False)"

definition date_gt :: "date option \<Rightarrow> date option \<Rightarrow> bool" where
  "date_gt a b = (case (a, b) of (Some x, Some y) \<Rightarrow> toordinal y < toordinal x | _ \<Rightarrow> False)"

fun col_gt :: "column \<Rightarrow> column \<Rightarrow> error + bool list" where
  "col_gt (NumCol xs) (NumCol ys) = Inr (map (\<lambda>(x, y). fgt x y) (zip xs ys))"
| "col_gt (DateCol xs) (DateCol ys) = Inr (map (\<lambda>(x, y). date_gt x y) (zip xs ys))"
| "col_gt (StrCol xs) (StrCol ys) = Inr (map (\<lambda>(x, y). str_gt x y) (zip xs ys))"
| "col_gt _ _ = Inl TypeError"

text \<open>\<open>.astype(int)\<close> of a boolean series.\<close>

definition astype_int :: "bool list \<Rightarrow> fval list" where
  "astype_int bs = map (\<lambda>b. if b then Num 1 else Num 0) bs"

section \<open>Target labels\<close>

text \<open>The cell "Create Targets":
  \<^verbatim>\<open>df['tomorrow'] = df['close'].shift(-1)\<close>,
  \<^verbatim>\<open>df['target'] = (df['tomorrow'] > df['close']).astype(int)\<close>.\<close>

definition create_targets :: "frame \<Rightarrow> error + frame" where
  "create_targets df =
     and_then (getitem df ''close'') (\<lambda>close.
     let df = setitem df ''tomorrow'' (col_shift (- 1) close) in
     and_then (getitem df ''tomorrow'') (\<lambda>tomorrow.
     and_then (getitem df ''close'') (\<lambda>close.
     and_then (col_gt tomorrow close) (\<lambda>up.
       Inr (setitem df ''target'' (NumCol (astype_int up)))))))"

section \<open>Python ranges and slices\<close>

text \<open>\<open>range(start, stop, step)\<close>: a zero step raises ValueError; the number of elements is
  the one CPython computes.\<close>

definition py_range :: "int \<Rightarrow> int \<Rightarrow> int \<Rightarrow> error + int list" where
  "py_range start stop step =
     (if step = 0 then Inl ValueError
      else if 0 < step then
        Inr (map (\<lambda>k. start + int k * step) [0..<nat ((stop - start + step - 1) div step)])
      else
        Inr (map (\<lambda>k. start + int k * step) [0..<nat ((start - stop - step - 1) div (- step))]))"

text \<open>A slice bound of \<open>xs[a:b]\<close>: a negative bound counts from the end, and every bound is
  clamped to \<open>0..len\<close>.\<close>

definition slice_index :: "nat \<Rightarrow> int \<Rightarrow> nat" where
  "slice_index n i = (if i < 0 then nat (max 0 (i + int n)) else min (nat i) n)"

definition py_slice :: "'a list \<Rightarrow> int \<Rightarrow> int \<Rightarrow> 'a list" where
  "py_slice xs a b =
     (let lo = slice_index (length xs) a; hi = slice_index (length xs) b
      in take (hi - lo) (drop lo xs))"

text \<open>\<open>df.iloc[a:b]\<close> selects the rows whose positions the slice \<open>a:b\<close> selects.\<close>

definition iloc :: "frame \<Rightarrow> int \<Rightarrow> int \<Rightarrow> frame" where
  "iloc df a b = take_rows (py_slice [0..<nrows df] a b) df"

section \<open>Walk-forward backtest\<close>

text \<open>
  The classifier is an external collaborator: an object with a mutable state of type
  \<open>'m\<close>, a \<open>fit\<close> that may fail or replace the state, and a \<open>predict\<close> that may fail or return
  one label per test row.
\<close>

record 'm classifier =
  fit :: "'m \<Rightarrow> column list \<Rightarrow> column \<Rightarrow> error + 'm"
  model_predict :: "'m \<Rightarrow> column list \<Rightarrow> error + fval list"

text \<open>\<open>df[predictors]\<close> with a list of names: KeyError when one is missing.\<close>

fun select :: "frame \<Rightarrow> string list \<Rightarrow> error + column list" where
  "select df [] = Inr []"
| "select df (p # ps) =
     and_then (getitem df p) (\<lambda>c. and_then (select df ps) (\<lambda>cs. Inr (c # cs)))"

text \<open>\<open>pd.Series(preds, index=test.index)\<close> raises ValueError when the lengths differ.\<close>

definition series :: "fval list \<Rightarrow> int list \<Rightarrow> error + fval list" where
  "series preds idx = (if length preds = length idx then Inr preds else Inl ValueError)"

definition predict ::
  "frame \<Rightarrow> frame \<Rightarrow> string list \<Rightarrow> 'm classifier \<Rightarrow> 'm \<Rightarrow> error + ('m \<times> frame)" where
  "predict train test predictors model m =
     and_then (select train predictors) (\<lambda>X.
     and_then (getitem train ''target'') (\<lambda>y.
     and_then (fit model m X y) (\<lambda>m'.
     and_then (select test predictors) (\<lambda>Xt.
     and_then (model_predict model m' Xt) (\<lambda>preds.
     and_then (series preds (index test)) (\<lambda>preds.
     and_then (getitem test ''target'') (\<lambda>t.
       Inr (m', \<lparr>index = index test,
                 columns = [(''target'', t), (''Predictions'', NumCol preds)]\<rparr>))))))))"

text \<open>
  \<open>pd.concat(frames)\<close> raises ValueError on an empty list.  The frames concatenated by
  \<open>backtest\<close> are all built by \<open>predict\<close> and share their column names and types; frames
  that do not are outside this model (pandas would align and widen them) and are
  reported as TypeError.
\<close>

fun col_append :: "column \<Rightarrow> column \<Rightarrow> column option" where
  "col_append (NumCol xs) (NumCol ys) = Some (NumCol (xs @ ys))"
| "col_append (DateCol xs) (DateCol ys) = Some (DateCol (xs @ ys))"
| "col_append (StrCol xs) (StrCol ys) = Some (StrCol (xs @ ys))"
| "col_append _ _ = None"

fun cols_append :: "(string \<times> column) list \<Rightarrow> (string \<times> column) list \<Rightarrow> (string \<times> column) list option" where
  "cols_append [] [] = Some []"
| "cols_append ((n, c) # cs) ((n', c') # cs') =
     (if n = n' then
        (case col_append c c' of None \<Rightarrow> None
         | Some d \<Rightarrow> (case cols_append cs cs' of None \<Rightarrow> None | Some ds \<Rightarrow> Some ((n, d) # ds)))
      else None)"
| "cols_append _ _ = None"

fun concat_onto :: "frame \<Rightarrow> frame list \<Rightarrow> error + frame" where
  "concat_onto acc [] = Inr acc"
| "concat_onto acc (f # fs) =
     (case cols_append (columns acc) (columns f) of
        None \<Rightarrow> Inl TypeError
      | Some cs \<Rightarrow> concat_onto \<lparr>index = index acc @ index f, columns = cs\<rparr> fs)"

definition pd_concat :: "frame list \<Rightarrow> error + frame" where
  "pd_concat fs = (case fs of [] \<Rightarrow> Inl ValueError | f # rest \<Rightarrow> concat_onto f rest)"

text \<open>The body of the \<open>for\<close> loop of \<open>backtest\<close>, over the values of the range still to visit.\<close>

fun backtest_loop ::
  "frame \<Rightarrow> 'm classifier \<Rightarrow> string list \<Rightarrow> int \<Rightarrow> int list \<Rightarrow> 'm \<Rightarrow> frame list
     \<Rightarrow> error + ('m \<times> frame list)" where
  "backtest_loop data model predictors step [] m all_predictions = Inr (m, all_predictions)"
| "backtest_loop data model predictors step (i # rest) m all_predictions =
     (let train = iloc data 0 i;
          test = iloc data i (i + step)
      in case predict train test predictors model m of
           Inl e \<Rightarrow> Inl e
         | Inr (m', predictions) \<Rightarrow>
             backtest_loop data model predictors step rest m' (all_predictions @ [predictions]))"

definition backtest ::
  "frame \<Rightarrow> 'm classifier \<Rightarrow> 'm \<Rightarrow> string list \<Rightarrow> int \<Rightarrow> int \<Rightarrow> error + ('m \<times> frame)" where
  "backtest data model m predictors start step =
     and_then (py_range start (int (nrows data)) step) (\<lambda>is.
     and_then (backtest_loop data model predictors step is m []) (\<lambda>(m', all_predictions).
     and_then (pd_concat all_predictions) (\<lambda>out. Inr (m', out))))"

text \<open>The row positions of the two slices of the fold at \<open>i\<close>: \<open>iloc[0:i]\<close> and
  \<open>iloc[i:(i+step)]\<close> of a frame of \<open>n\<close> rows.\<close>

definition train_rows :: "nat \<Rightarrow> int \<Rightarrow> nat list" where
  "train_rows n i = py_slice [0..<n] 0 i"

definition test_rows :: "nat \<Rightarrow> int \<Rightarrow> int \<Rightarrow> nat list" where
  "test_rows n step i = py_slice [0..<n] i (i + step)"

section \<open>Rolling, differencing and smoothing of a series\<close>

text \<open>
  \<open>s.rolling(h)\<close> with the default \<open>min_periods = h\<close>: the window of row \<open>t\<close> is the \<open>h\<close> cells
  ending at \<open>t\<close>; the result is NaN unless the window is complete and all its cells are
  finite numbers (pandas turns infinite cells into NaN before it aggregates).  A negative
  window raises ValueError; a window of 0 gives NaN everywhere.
\<close>

definition check_window :: "int \<Rightarrow> error + nat" where
  "check_window w = (if w < 0 then Inl ValueError else Inr (nat w))"

fun num_of :: "fval \<Rightarrow> real option" where
  "num_of (Num x) = Some x"
| "num_of _ = None"

definition window_values :: "nat \<Rightarrow> nat \<Rightarrow> fval list \<Rightarrow> real list option" where
  "window_values h t xs =
     (if 0 < h \<and> h \<le> t + 1 then those (map num_of (take h (drop (t + 1 - h) xs))) else None)"

definition rolling :: "nat \<Rightarrow> (real list \<Rightarrow> fval) \<Rightarrow> fval list \<Rightarrow> fval list" where
  "rolling h f xs =
     map (\<lambda>t. case window_values h t xs of None \<Rightarrow> NaN | Some w \<Rightarrow> f w) [0..<length xs]"

definition rolling_mean :: "nat \<Rightarrow> fval list \<Rightarrow> fval list" where
  "rolling_mean h = rolling h (\<lambda>w. Num (sum_list w / real h))"

definition rolling_sum :: "nat \<Rightarrow> fval list \<Rightarrow> fval list" where
  "rolling_sum h = rolling h (\<lambda>w. Num (sum_list w))"

text \<open>The sample standard deviation (\<open>ddof = 1\<close>): NaN for a window of one cell.\<close>

definition rolling_std :: "nat \<Rightarrow> fval list \<Rightarrow> fval list" where
  "rolling_std h =
     rolling h (\<lambda>w. if h \<le> 1 then NaN
                     else let mean = sum_list w / real h
                          in Num (sqrt (sum_list (map (\<lambda>x. (x - mean)\<^sup>2) w) / real (h - 1))))"

text \<open>Elementwise arithmetic of two series of one frame, and of a series with a scalar.\<close>

definition sdiv :: "fval list \<Rightarrow> fval list \<Rightarrow> fval list" where
  "sdiv xs ys = map (\<lambda>(x, y). fdiv x y) (zip xs ys)"

definition ssub :: "fval list \<Rightarrow> fval list \<Rightarrow> fval list" where
  "ssub xs ys = map (\<lambda>(x, y). fsub x y) (zip xs ys)"

definition sadd :: "fval list \<Rightarrow> fval list \<Rightarrow> fval list" where
  "sadd xs ys = map (\<lambda>(x, y). fadd x y) (zip xs ys)"

text \<open>\<open>s.diff()\<close> is \<open>s - s.shift(1)\<close>; \<open>s.where(cond, 0)\<close> keeps a cell where the condition
  holds and puts 0 elsewhere (a comparison with NaN is false).\<close>

definition diff :: "fval list \<Rightarrow> fval list" where
  "diff xs = ssub xs (shift_list NaN 1 xs)"

definition where_or_zero :: "(fval \<Rightarrow> bool) \<Rightarrow> fval list \<Rightarrow> fval list" where
  "where_or_zero cond xs = map (\<lambda>x. if cond x then x else Num 0) xs"

text \<open>\<open>s.pct_change()\<close> with the default \<open>fill_method='pad'\<close>: missing cells are filled forward,
  then each cell is divided by its predecessor, minus 1.\<close>

fun ffill_from :: "fval \<Rightarrow> fval list \<Rightarrow> fval list" where
  "ffill_from prev [] = []"
| "ffill_from prev (x # xs) =
     (if x = NaN then prev # ffill_from prev xs else x # ffill_from x xs)"

definition pct_change :: "fval list \<Rightarrow> fval list" where
  "pct_change xs =
     (let filled = ffill_from NaN xs
      in map (\<lambda>q. fsub q (Num 1)) (sdiv filled (shift_list NaN 1 filled)))"

text \<open>
  \<open>s.ewm(span=h, adjust=False).mean()\<close>: \<open>span < 1\<close> raises ValueError.  The recursion is
  pandas' own: the running mean starts at the first observation; a missing cell repeats
  the running mean and lets the weight of the past decay; an observation after a gap is
  averaged with the decayed weight.
\<close>

fun ewm_loop :: "real \<Rightarrow> fval \<Rightarrow> real \<Rightarrow> fval list \<Rightarrow> fval list" where
  "ewm_loop alpha weighted old_wt [] = []"
| "ewm_loop alpha weighted old_wt (cur # rest) =
     (case num_of weighted of
        Some w \<Rightarrow>
          (let old_wt = old_wt * (1 - alpha) in
           case num_of cur of
             Some c \<Rightarrow>
               (let w' = (if w \<noteq> c then (old_wt * w + alpha * c) / (old_wt + alpha) else w)
                in Num w' # ewm_loop alpha (Num w') 1 rest)
           | None \<Rightarrow> Num w # ewm_loop alpha (Num w) old_wt rest)
      | None \<Rightarrow>
          (case num_of cur of
             Some c \<Rightarrow> Num c # ewm_loop alpha (Num c) old_wt rest
           | None \<Rightarrow> NaN # ewm_loop alpha NaN old_wt rest))"

definition ewm_mean :: "int \<Rightarrow> fval list \<Rightarrow> error + fval list" where
  "ewm_mean span_h xs =
     (if span_h < 1 then Inl ValueError
      else Inr (ewm_loop (2 / (real_of_int span_h + 1)) NaN 1 xs))"

section \<open>Technical features\<close>

text \<open>\<open>str(n)\<close> of a Python integer, as an f-string formats it.\<close>

fun str_nat :: "nat \<Rightarrow> string" where
  "str_nat n = (if n < 10 then [''0123456789'' ! n]
                else str_nat (n div 10) @ [''0123456789'' ! (n mod 10)])"

definition str_int :: "int \<Rightarrow> string" where
  "str_int i = (if i < 0 then CHR ''-'' # str_nat (nat (- i)) else str_nat (nat i))"

text \<open>The value a decimal string denotes (Python's \<open>int(s)\<close> on digits).\<close>

definition digits_value :: "string \<Rightarrow> nat" where
  "digits_value s = foldl (\<lambda>a c. 10 * a + (of_char c - 48)) 0 s"

text \<open>A numeric column of a frame.  A column of another dtype cannot be aggregated or
  divided; the failure is reported as TypeError.\<close>

definition numeric :: "frame \<Rightarrow> string \<Rightarrow> error + fval list" where
  "numeric df name =
     and_then (getitem df name) (\<lambda>c. case c of NumCol xs \<Rightarrow> Inr xs | _ \<Rightarrow> Inl TypeError)"

definition feature_names :: "int \<Rightarrow> string list" where
  "feature_names horizon =
     [''Close_Ratio_'' @ str_int horizon,
      ''Trend_'' @ str_int horizon,
      ''Volatility_'' @ str_int horizon,
      ''Momentum_'' @ str_int horizon,
      ''EMA_'' @ str_int horizon,
      ''RSI_'' @ str_int horizon,
      ''Bollinger_Upper_'' @ str_int horizon,
      ''Bollinger_Lower_'' @ str_int horizon,
      ''Cumulative_Return_'' @ str_int horizon]"

text \<open>
  The body of the loop of \<open>create_ohlc_features\<close> for a horizon that is not skipped, one
  binding per statement of the source; every \<open>df["close"]\<close> reads the frame as the
  statements before it left it.  \<open>df.rolling(horizon).mean()\<close> is taken on the close column
  alone: columns of other dtypes are left out of the aggregation, as pandas 1 does.
\<close>

definition ohlc_step :: "frame \<Rightarrow> int \<Rightarrow> error + frame" where
  "ohlc_step df horizon =
     and_then (check_window horizon) (\<lambda>h.
     and_then (numeric df ''close'') (\<lambda>close.
     let rolling_averages_close = rolling_mean h close in
     and_then (numeric df ''close'') (\<lambda>close.
     let df = setitem df (''Close_Ratio_'' @ str_int horizon)
                (NumCol (sdiv close rolling_averages_close)) in
     and_then (numeric df ''target'') (\<lambda>target.
     let df = setitem df (''Trend_'' @ str_int horizon)
                (NumCol (rolling_sum h (shift_list NaN 1 target))) in
     and_then (numeric df ''close'') (\<lambda>close.
     let df = setitem df (''Volatility_'' @ str_int horizon) (NumCol (rolling_std h close)) in
     and_then (numeric df ''close'') (\<lambda>close.
     let df = setitem df (''Momentum_'' @ str_int horizon)
                (NumCol (ssub close (shift_list NaN horizon close))) in
     and_then (numeric df ''close'') (\<lambda>close.
     and_then (ewm_mean horizon close) (\<lambda>ema.
     let df = setitem df (''EMA_'' @ str_int horizon) (NumCol ema) in
     and_then (numeric df ''close'') (\<lambda>close.
     let delta = diff close;
         gain = rolling_mean h (where_or_zero (\<lambda>d. fgt d (Num 0)) delta);
         loss = rolling_mean h (map fneg (where_or_zero (\<lambda>d. flt d (Num 0)) delta));
         df = setitem df (''RSI_'' @ str_int horizon)
                (NumCol (map (\<lambda>rs. fsub (Num 100) (fdiv (Num 100) (fadd (Num 1) rs)))
                           (sdiv gain loss))) in
     and_then (numeric df ''close'') (\<lambda>close.
     let rolling_std_close = rolling_std h close;
         df = setitem df (''Bollinger_Upper_'' @ str_int horizon)
                (NumCol (sadd rolling_averages_close (map (fmul (Num 2)) rolling_std_close)));
         df = setitem df (''Bollinger_Lower_'' @ str_int horizon)
                (NumCol (ssub rolling_averages_close (map (fmul (Num 2)) rolling_std_close))) in
     and_then (numeric df ''close'') (\<lambda>close.
     let df = setitem df (''Cumulative_Return_'' @ str_int horizon)
                (NumCol (rolling_sum h (pct_change close)))
     in Inr df)))))))))))"

text \<open>The \<open>for\<close> loop: a horizon larger than the number of rows is skipped; every other
  horizon adds its nine columns and appends their names to \<open>predictors\<close>.\<close>

fun ohlc_loop :: "frame \<Rightarrow> string list \<Rightarrow> int list \<Rightarrow> error + (frame \<times> string list)" where
  "ohlc_loop df predictors [] = Inr (df, predictors)"
| "ohlc_loop df predictors (horizon # rest) =
     (if int (nrows df) < horizon then ohlc_loop df predictors rest
      else and_then (ohlc_step df horizon) (\<lambda>df.
             ohlc_loop df (predictors @ feature_names horizon) rest))"

text \<open>\<open>df.dropna(subset=names, how="all")\<close>: KeyError for a missing name; a row is kept when
  at least one of the named cells is present, so with no names no row is kept.
  Infinite cells count as present.\<close>

fun notna_at :: "column \<Rightarrow> nat \<Rightarrow> bool" where
  "notna_at (NumCol xs) t = (xs ! t \<noteq> NaN)"
| "notna_at (DateCol ds) t = (ds ! t \<noteq> None)"
| "notna_at (StrCol ss) t = (ss ! t \<noteq> None)"

definition dropna_all :: "frame \<Rightarrow> string list \<Rightarrow> error + frame" where
  "dropna_all df names =
     and_then (select df names) (\<lambda>cs.
       Inr (take_rows (filter (\<lambda>t. list_ex (\<lambda>c. notna_at c t) cs) [0..<nrows df]) df))"

definition create_ohlc_features :: "frame \<Rightarrow> int list \<Rightarrow> error + (frame \<times> string list)" where
  "create_ohlc_features df horizons =
     and_then (ohlc_loop df [] horizons) (\<lambda>(df, predictors).
     and_then (dropna_all df predictors) (\<lambda>df. Inr (df, predictors)))"

text \<open>The local series \<open>gain\<close> and \<open>loss\<close> of the RSI statements, as functions of the close
  column.\<close>

definition rsi_gain :: "nat \<Rightarrow> fval list \<Rightarrow> fval list" where
  "rsi_gain h close = rolling_mean h (where_or_zero (\<lambda>d. fgt d (Num 0)) (diff close))"

definition rsi_loss :: "nat \<Rightarrow> fval list \<Rightarrow> fval list" where
  "rsi_loss h close = rolling_mean h (map fneg (where_or_zero (\<lambda>d. flt d (Num 0)) (diff close)))"

text \<open>The nine columns a processed horizon adds, in the order of the source, as functions
  of the close and target columns; and the assignment of a list of numeric columns.\<close>

definition feature_cols :: "int \<Rightarrow> fval list \<Rightarrow> fval list \<Rightarrow> (string \<times> fval list) list" where
  "feature_cols horizon close target =
     (let h = nat horizon; avg = rolling_mean h close; sd = rolling_std h close in
      [(''Close_Ratio_'' @ str_int horizon, sdiv close avg),
       (''Trend_'' @ str_int horizon, rolling_sum h (shift_list NaN 1 target)),
       (''Volatility_'' @ str_int horizon, sd),
       (''Momentum_'' @ str_int horizon, ssub close (shift_list NaN horizon close)),
       (''EMA_'' @ str_int horizon, ewm_loop (2 / (real_of_int horizon + 1)) NaN 1 close),
       (''RSI_'' @ str_int horizon,
          map (\<lambda>rs. fsub (Num 100) (fdiv (Num 100) (fadd (Num 1) rs)))
            (sdiv (rsi_gain h close) (rsi_loss h close))),
       (''Bollinger_Upper_'' @ str_int horizon, sadd avg (map (fmul (Num 2)) sd)),
       (''Bollinger_Lower_'' @ str_int horizon, ssub avg (map (fmul (Num 2)) sd)),
       (''Cumulative_Return_'' @ str_int horizon, rolling_sum h (pct_change close))])"

definition set_columns :: "frame \<Rightarrow> (string \<times> fval list) list \<Rightarrow> frame" where
  "set_columns df cols = foldl (\<lambda>d nv. setitem d (fst nv) (NumCol (snd nv))) df cols"

text \<open>The horizons the loop does not skip, all the columns they add, and the rows that
  \<open>dropna\<close> keeps for a list of numeric columns.\<close>

definition processed :: "nat \<Rightarrow> int list \<Rightarrow> int list" where
  "processed n horizons = filter (\<lambda>h. \<not> int n < h) horizons"

definition all_feature_cols ::
  "nat \<Rightarrow> int list \<Rightarrow> fval list \<Rightarrow> fval list \<Rightarrow> (string \<times> fval list) list" where
  "all_feature_cols n horizons close target =
     concat (map (\<lambda>h. feature_cols h close target) (processed n horizons))"

definition kept_rows :: "(string \<times> fval list) list \<Rightarrow> nat \<Rightarrow> nat list" where
  "kept_rows cols n = filter (\<lambda>t. list_ex (\<lambda>nv. snd nv ! t \<noteq> NaN) cols) [0..<n]"

text \<open>The cell of a numeric column at the row with a given label (the first such row).\<close>

fun row_of_label :: "int list \<Rightarrow> int \<Rightarrow> nat option" where
  "row_of_label [] l = None"
| "row_of_label (x # xs) l = (if x = l then Some 0 else map_option Suc (row_of_label xs l))"

definition cell_at :: "frame \<Rightarrow> string \<Rightarrow> int \<Rightarrow> fval option" where
  "cell_at df name l =
     (case (map_of (columns df) name, row_of_label (index df) l) of
        (Some (NumCol xs), Some j) \<Rightarrow> Some (xs ! j)
      | _ \<Rightarrow> None)"

section \<open>Calendar features\<close>

text \<open>\<open>pd.to_datetime(col)\<close> leaves a timestamp column as it is.  The parsing of any other
  column is pandas' own and is a parameter: it fails or returns one timestamp (or NaT) per
  cell.\<close>

definition pd_to_datetime ::
  "(column \<Rightarrow> error + date option list) \<Rightarrow> column \<Rightarrow> error + date option list" where
  "pd_to_datetime parse_dates col = (case col of DateCol ds \<Rightarrow> Inr ds | _ \<Rightarrow> parse_dates col)"

text \<open>\<open>df[name].dt\<close>: AttributeError unless the column holds timestamps.\<close>

definition dt :: "frame \<Rightarrow> string \<Rightarrow> error + date option list" where
  "dt df name =
     and_then (getitem df name) (\<lambda>c. case c of DateCol ds \<Rightarrow> Inr ds | _ \<Rightarrow> Inl AttributeError)"

text \<open>The calendar fields of a date, as Python's \<open>datetime\<close> computes them: Monday is
  weekday 0; the ISO week is counted from the Monday of the week that holds the year's
  first Thursday.\<close>

definition weekday :: "date \<Rightarrow> int" where
  "weekday d = (toordinal d + 6) mod 7"

definition isoweek1monday :: "int \<Rightarrow> int" where
  "isoweek1monday y =
     (let firstday = toordinal \<lparr>year = y, month = 1, day = 1\<rparr>;
          firstweekday = (firstday + 6) mod 7;
          week1monday = firstday - firstweekday
      in if 3 < firstweekday then week1monday + 7 else week1monday)"

definition isoweek :: "date \<Rightarrow> int" where
  "isoweek d =
     (let today = toordinal d;
          week = (today - isoweek1monday (year d)) div 7
      in if week < 0 then (today - isoweek1monday (year d - 1)) div 7 + 1
         else if 52 \<le> week \<and> isoweek1monday (year d + 1) \<le> today then 1
         else week + 1)"

definition quarter :: "date \<Rightarrow> int" where
  "quarter d = (month d - 1) div 3 + 1"

definition is_month_end :: "date \<Rightarrow> bool" where
  "is_month_end d = (day d = days_in_month (year d) (month d))"

definition is_month_start :: "date \<Rightarrow> bool" where
  "is_month_start d = (day d = 1)"

text \<open>An integer field of a timestamp column is NaN at NaT; a boolean field is false at
  NaT and becomes 0 or 1 by \<open>.astype(int)\<close>.\<close>

definition dt_int :: "(date \<Rightarrow> int) \<Rightarrow> date option list \<Rightarrow> column" where
  "dt_int f ds = NumCol (map (\<lambda>d. case d of None \<Rightarrow> NaN | Some x \<Rightarrow> Num (real_of_int (f x))) ds)"

definition dt_flag :: "(date \<Rightarrow> bool) \<Rightarrow> date option list \<Rightarrow> column" where
  "dt_flag p ds = NumCol (astype_int (map (\<lambda>d. case d of None \<Rightarrow> False | Some x \<Rightarrow> p x) ds))"

text \<open>\<open>np.sin\<close> and \<open>np.cos\<close> of a float: NaN at NaN and at the infinities.\<close>

fun fsin :: "fval \<Rightarrow> fval" where
  "fsin (Num x) = Num (sin x)"
| "fsin _ = NaN"

fun fcos :: "fval \<Rightarrow> fval" where
  "fcos (Num x) = Num (cos x)"
| "fcos _ = NaN"

text \<open>The angle \<open>2 * np.pi * s / period\<close> of a series.\<close>

definition cyclic_angle :: "real \<Rightarrow> fval list \<Rightarrow> fval list" where
  "cyclic_angle period s = map (\<lambda>x. fdiv (fmul (Num (2 * pi)) x) (Num period)) s"

definition calendar_names :: "string list" where
  "calendar_names =
     [''day_of_week'', ''day_of_month'', ''week_of_year'', ''month'', ''year'', ''quarter'',
      ''is_month_end'', ''is_month_start'', ''day_of_week_sin'', ''day_of_week_cos'',
      ''month_sin'', ''month_cos'']"

definition create_calendar_features ::
  "(column \<Rightarrow> error + date option list) \<Rightarrow> frame \<Rightarrow> string \<Rightarrow> error + (frame \<times> string list)" where
  "create_calendar_features parse_dates df date_col =
     and_then (getitem df date_col) (\<lambda>c.
     and_then (pd_to_datetime parse_dates c) (\<lambda>ds.
     let df = setitem df date_col (DateCol ds) in
     and_then (dt df date_col) (\<lambda>d.
     let df = setitem df ''day_of_week'' (dt_int weekday d) in
     and_then (dt df date_col) (\<lambda>d.
     let df = setitem df ''day_of_month'' (dt_int day d) in
     and_then (dt df date_col) (\<lambda>d.
     let df = setitem df ''week_of_year'' (dt_int isoweek d) in
     and_then (dt df date_col) (\<lambda>d.
     let df = setitem df ''month'' (dt_int month d) in
     and_then (dt df date_col) (\<lambda>d.
     let df = setitem df ''year'' (dt_int year d) in
     and_then (dt df date_col) (\<lambda>d.
     let df = setitem df ''quarter'' (dt_int quarter d) in
     and_then (dt df date_col) (\<lambda>d.
     let df = setitem df ''is_month_end'' (dt_flag is_month_end d) in
     and_then (dt df date_col) (\<lambda>d.
     let df = setitem df ''is_month_start'' (dt_flag is_month_start d) in
     and_then (numeric df ''day_of_week'') (\<lambda>s.
     let df = setitem df ''day_of_week_sin'' (NumCol (map fsin (cyclic_angle 7 s))) in
     and_then (numeric df ''day_of_week'') (\<lambda>s.
     let df = setitem df ''day_of_week_cos'' (NumCol (map fcos (cyclic_angle 7 s))) in
     and_then (numeric df ''month'') (\<lambda>s.
     let df = setitem df ''month_sin'' (NumCol (map fsin (cyclic_angle 12 s))) in
     and_then (numeric df ''month'') (\<lambda>s.
     let df = setitem df ''month_cos'' (NumCol (map fcos (cyclic_angle 12 s)))
     in Inr (df, calendar_names)))))))))))))))"

text \<open>The twelve columns the function assigns, in the order of the source, as functions
  of the converted dates; and a column of a returned frame.\<close>

definition calendar_cols :: "date option list \<Rightarrow> (string \<times> column) list" where
  "calendar_cols ds =
    (let dow = map (\<lambda>d. case d of None \<Rightarrow> NaN | Some x \<Rightarrow> Num (real_of_int (weekday x))) ds;
         mon = map (\<lambda>d. case d of None \<Rightarrow> NaN | Some x \<Rightarrow> Num (real_of_int (month x))) ds in
     [(''day_of_week'', dt_int weekday ds),
      (''day_of_month'', dt_int day ds),
      (''week_of_year'', dt_int isoweek ds),
      (''month'', dt_int month ds),
      (''year'', dt_int year ds),
      (''quarter'', dt_int quarter ds),
      (''is_month_end'', dt_flag is_month_end ds),
      (''is_month_start'', dt_flag is_month_start ds),
      (''day_of_week_sin'', NumCol (map fsin (cyclic_angle 7 dow))),
      (''day_of_week_cos'', NumCol (map fcos (cyclic_angle 7 dow))),
      (''month_sin'', NumCol (map fsin (cyclic_angle 12 mon))),
      (''month_cos'', NumCol (map fcos (cyclic_angle 12 mon)))])"

definition column_of_result :: "error + (frame \<times> string list) \<Rightarrow> string \<Rightarrow> error + column" where
  "column_of_result r name = and_then r (\<lambda>dp. getitem (fst dp) name)"

section \<open>Macro announcement tables\<close>

text \<open>\<open>date_string.split(" (")[0]\<close>: the text before the first occurrence of the separator,
  or all of it.\<close>

fun split_head :: "string \<Rightarrow> string \<Rightarrow> string" where
  "split_head sep [] = []"
| "split_head sep (c # cs) =
     (if take (length sep) (c # cs) = sep then [] else c # split_head sep cs)"

text \<open>\<open>convert_date_format\<close>.  \<open>datetime.strptime(s, "%b %d, %Y")\<close> is Python's and is a
  parameter; formatting the parsed date as \<open>%Y-%m-%d\<close> and reading it back gives the same
  date.\<close>

definition convert_date_format :: "(string \<Rightarrow> error + date) \<Rightarrow> string \<Rightarrow> error + date" where
  "convert_date_format strptime date_string =
     (let main_date_part = split_head '' ('' date_string in strptime main_date_part)"

text \<open>\<open>col.apply(convert_date_format)\<close>: an empty column is returned as it is; a cell that
  is not a string has no \<open>split\<close> (AttributeError); the first failing cell ends the call.\<close>

fun convert_cells :: "(string \<Rightarrow> error + date) \<Rightarrow> string option list \<Rightarrow> error + date option list" where
  "convert_cells strptime [] = Inr []"
| "convert_cells strptime (None # ss) = Inl AttributeError"
| "convert_cells strptime (Some s # ss) =
     and_then (convert_date_format strptime s) (\<lambda>d.
     and_then (convert_cells strptime ss) (\<lambda>ds. Inr (Some d # ds)))"

definition apply_convert_date_format :: "(string \<Rightarrow> error + date) \<Rightarrow> column \<Rightarrow> error + column" where
  "apply_convert_date_format strptime col =
     (if col_len col = 0 then Inr col
      else case col of
             StrCol ss \<Rightarrow> and_then (convert_cells strptime ss) (\<lambda>ds. Inr (DateCol ds))
           | _ \<Rightarrow> Inl AttributeError)"

text \<open>\<open>df.columns = names\<close> renames by position and raises ValueError when the number of names
  differs; \<open>df.drop(columns=names)\<close> raises KeyError for a missing name.\<close>

definition rename_columns :: "frame \<Rightarrow> string list \<Rightarrow> error + frame" where
  "rename_columns df names =
     (if length names = length (columns df)
      then Inr (df\<lparr>columns := zip names (map snd (columns df))\<rparr>)
      else Inl ValueError)"

definition drop_columns :: "frame \<Rightarrow> string list \<Rightarrow> error + frame" where
  "drop_columns df names =
     (if set names \<subseteq> fst ` set (columns df)
      then Inr (df\<lparr>columns := filter (\<lambda>nc. fst nc \<notin> set names) (columns df)\<rparr>)
      else Inl KeyError)"

text \<open>\<open>(a - b).dt.days\<close>: the whole days from \<open>b\<close> to \<open>a\<close> for two timestamp columns, NaN where
  either is NaT.  The difference of two numeric columns has no \<open>.dt\<close> (AttributeError).  Two
  object columns are subtracted only where both cells are present: a row with two strings
  raises TypeError, and without such a row the difference is all missing and has no \<open>.dt\<close>
  (AttributeError).\<close>

definition day_gap :: "date option \<Rightarrow> date option \<Rightarrow> fval" where
  "day_gap a b =
     (case (a, b) of
        (Some x, Some y) \<Rightarrow> Num (real_of_int (toordinal x - toordinal y))
      | _ \<Rightarrow> NaN)"

fun sub_dt_days :: "column \<Rightarrow> column \<Rightarrow> error + column" where
  "sub_dt_days (DateCol xs) (DateCol ys) = Inr (NumCol (map (\<lambda>(x, y). day_gap x y) (zip xs ys)))"
| "sub_dt_days (NumCol xs) (NumCol ys) = Inl AttributeError"
| "sub_dt_days (StrCol xs) (StrCol ys) =
     (if list_ex (\<lambda>(x, y). x \<noteq> None \<and> y \<noteq> None) (zip xs ys) then Inl TypeError
      else Inl AttributeError)"
| "sub_dt_days _ _ = Inl TypeError"

text \<open>The two statements every table shares, up to the direction \<open>k\<close> of the shift:
  \<^verbatim>\<open>t["next_announcement_date"] = t["date"].shift(k)\<close>,
  \<^verbatim>\<open>t["days_until_next_announcement"] = (t["next_announcement_date"] - t["date"]).dt.days\<close>.\<close>

definition days_until :: "int \<Rightarrow> frame \<Rightarrow> error + frame" where
  "days_until k t =
     and_then (getitem t ''date'') (\<lambda>d.
     let t = setitem t ''next_announcement_date'' (col_shift k d) in
     and_then (getitem t ''next_announcement_date'') (\<lambda>nx.
     and_then (getitem t ''date'') (\<lambda>d.
     and_then (sub_dt_days nx d) (\<lambda>days.
       Inr (setitem t ''days_until_next_announcement'' days)))))"

text \<open>The unemployment-rate and CPI cells are the same statements up to the names of the
  announcement flag and of the change column; both shift the dates by \<open>-1\<close>.\<close>

definition announcement_table ::
  "string \<Rightarrow> string \<Rightarrow> (string \<Rightarrow> error + date) \<Rightarrow> frame \<Rightarrow> error + frame" where
  "announcement_table flag change strptime raw =
     (let t = setitem raw flag (NumCol (replicate (nrows raw) (Num 1))) in
      and_then (rename_columns t [''date'', ''time'', ''actual'', ''forecast'', ''previous'', flag]) (\<lambda>t.
      and_then (getitem t ''date'') (\<lambda>d.
      and_then (apply_convert_date_format strptime d) (\<lambda>d.
      let t = setitem t ''date'' d in
      and_then (numeric t ''forecast'') (\<lambda>forecast.
      and_then (numeric t ''previous'') (\<lambda>previous.
      let t = setitem t change (NumCol (ssub forecast previous)) in
      and_then (days_until (- 1) t) (\<lambda>t.
        drop_columns t [''time'', ''previous'', ''forecast'', ''actual'',
                        ''next_announcement_date''])))))))"

definition un_rate :: "(string \<Rightarrow> error + date) \<Rightarrow> frame \<Rightarrow> error + frame" where
  "un_rate = announcement_table ''un_announcement'' ''unempl_change''"

definition cpi :: "(string \<Rightarrow> error + date) \<Rightarrow> frame \<Rightarrow> error + frame" where
  "cpi = announcement_table ''cpi_announcement'' ''cpi_change''"

text \<open>The Fed-rate cell does not convert its dates, shifts them by \<open>+1\<close>, and keeps
  \<open>next_announcement_date\<close>.\<close>

definition interest_rates :: "frame \<Rightarrow> error + frame" where
  "interest_rates raw =
     (let t = setitem raw ''interest_announcement'' (NumCol (replicate (nrows raw) (Num 1))) in
      and_then (rename_columns t [''date'', ''time'', ''actual'', ''forecast'', ''previous'',
                                  ''interest_announcement'']) (\<lambda>t.
      and_then (numeric t ''forecast'') (\<lambda>forecast.
      and_then (numeric t ''previous'') (\<lambda>previous.
      let t = setitem t ''interest_change'' (NumCol (ssub forecast previous)) in
      and_then (days_until 1 t) (\<lambda>t.
        drop_columns t [''time'', ''previous'', ''forecast'', ''actual''])))))"

section \<open>Sample data\<close>

text \<open>The five closing prices of the end-to-end scenario, and a classifier that ignores
  its training data and labels every test row 1.\<close>

definition scenario_prices :: frame where
  "scenario_prices = \<lparr>index = [0, 1, 2, 3, 4],
     columns = [(''close'', NumCol [Num 100, Num 102, Num 101, Num 105, Num 103])]\<rparr>"

definition scenario_labelled :: frame where
  "scenario_labelled = \<lparr>index = [0, 1, 2, 3, 4],
     columns = [(''close'', NumCol [Num 100, Num 102, Num 101, Num 105, Num 103]),
                (''tomorrow'', NumCol [Num 102, Num 101, Num 105, Num 103, NaN]),
                (''target'', NumCol [Num 1, Num 0, Num 1, Num 0, Num 0])]\<rparr>"

definition always_up :: "unit classifier" where
  "always_up = \<lparr>fit = (\<lambda>m X y. Inr m),
                 model_predict = (\<lambda>m X. Inr (case X of [] \<Rightarrow> [] | c # _ \<Rightarrow> replicate (col_len c) (Num 1)))\<rparr>"

text \<open>A one-row frame whose date is still a string, with the parser's answer for it; a
  one-row frame that already has a column named \<open>year\<close>; and three rows of the CPI and
  Fed-rate tables, most recent first, with \<open>strptime\<close> on their date strings.\<close>

definition string_dated :: frame where
  "string_dated = \<lparr>index = [0], columns = [(''date'', StrCol [Some ''2024-01-01''])]\<rparr>"

definition parse_iso_sample :: "column \<Rightarrow> error + date option list" where
  "parse_iso_sample col =
     (if col = StrCol [Some ''2024-01-01''] then Inr [Some \<lparr>year = 2024, month = 1, day = 1\<rparr>]
      else Inl TypeError)"

definition with_year_column :: frame where
  "with_year_column = \<lparr>index = [0],
     columns = [(''date'', DateCol [Some \<lparr>year = 2024, month = 1, day = 1\<rparr>]),
                (''year'', NumCol [Num 7])]\<rparr>"

definition cpi_sheet :: frame where
  "cpi_sheet = \<lparr>index = [0, 1, 2],
     columns = [(''Release Date'', StrCol [Some ''Nov 13, 2024 (Oct)'', Some ''Oct 10, 2024 (Sep)'',
                                          Some ''Sep 11, 2024 (Aug)'']),
                (''Time'', StrCol [Some ''08:30'', Some ''08:30'', Some ''08:30'']),
                (''Actual'', NumCol [NaN, Num (2 / 1000), Num (2 / 1000)]),
                (''Forecast'', NumCol [NaN, Num (1 / 1000), Num (2 / 1000)]),
                (''Previous'', NumCol [Num (2 / 1000), Num (2 / 1000), Num (2 / 1000)])]\<rparr>"

definition strptime_sample :: "string \<Rightarrow> error + date" where
  "strptime_sample s =
     (if s = ''Nov 13, 2024'' then Inr \<lparr>year = 2024, month = 11, day = 13\<rparr>
      else if s = ''Oct 10, 2024'' then Inr \<lparr>year = 2024, month = 10, day = 10\<rparr>
      else if s = ''Sep 11, 2024'' then Inr \<lparr>year = 2024, month = 9, day = 11\<rparr>
      else Inl ValueError)"

definition fed_sheet :: frame where
  "fed_sheet = \<lparr>index = [0, 1, 2],
     columns = [(''Release Date'', DateCol [Some \<lparr>year = 2024, month = 11, day = 7\<rparr>,
                                           Some \<lparr>year = 2024, month = 9, day = 18\<rparr>,
                                           Some \<lparr>year = 2024, month = 7, day = 31\<rparr>]),
                (''Time'', StrCol [Some ''14:00'', Some ''14:00'', Some ''14:00'']),
                (''Actual'', NumCol [Num (475 / 10000), Num (5 / 100), Num (55 / 1000)]),
                (''Forecast'', NumCol [Num (475 / 10000), Num (525 / 10000), Num (55 / 1000)]),
                (''Previous'', NumCol [Num (5 / 100), Num (55 / 1000), Num (55 / 1000)])]\<rparr>"

section \<open>Slices, ranges and the folds of the backtest\<close>

lemma take_drop_upt: "l \<le> n \<Longrightarrow> h \<le> n \<Longrightarrow> take (h - l) (drop l [0..<n]) = [l..<h]"
  by (cases "l \<le> h") (simp_all add: drop_upt take_upt)

lemma slice_index_le: "slice_index n i \<le> n"
  unfolding slice_index_def by (cases "i < 0") auto

lemma py_slice_upt: "py_slice [0..<n] a b = [slice_index n a ..< slice_index n b]"
  unfolding py_slice_def Let_def length_upt diff_zero
  by (rule take_drop_upt[OF slice_index_le slice_index_le])

lemma range_pos_len:
  fixes start stop step :: int
  assumes "0 < step"
  defines "q \<equiv> (stop - start + step - 1) div step"
  shows "stop - start \<le> q * step" and "\<And>k. k < q \<Longrightarrow> start + k * step < stop"
proof -
  have a: "(stop - start + step - 1) = q * step + (stop - start + step - 1) mod step"
    by (simp add: q_def)
  have b: "(stop - start + step - 1) mod step < step" "0 \<le> (stop - start + step - 1) mod step"
    using assms by simp_all
  show "stop - start \<le> q * step" using a b by linarith
  fix k assume "k < q"
  hence "k + 1 \<le> q" by simp
  hence "(k + 1) * step \<le> q * step" using assms by (simp add: mult_right_mono)
  thus "start + k * step < stop" using a b by (simp add: algebra_simps)
qed

lemma upt_split: "a \<le> b \<Longrightarrow> b \<le> c \<Longrightarrow> [a..<b] @ [b..<c] = [a..<c]"
  using upt_add_eq_append[of a b "c - b"] by simp


lemma chunks_concat:
  fixes start step :: int
  assumes "0 \<le> start" "0 < step"
    and "\<And>k. k < m \<Longrightarrow> start + int k * step < int n"
  shows "concat (map (\<lambda>k. [nat (start + int k * step) ..< min (nat (start + int k * step + step)) n]) [0..<m])
         = [nat start ..< min (nat (start + int m * step)) n]"
  using assms(3)
proof (induction m)
  case 0
  then show ?case by simp
next
  case (Suc m)
  have lt: "start + int m * step < int n" using Suc.prems by simp
  have ih: "concat (map (\<lambda>k. [nat (start + int k * step) ..< min (nat (start + int k * step + step)) n]) [0..<m])
         = [nat start ..< min (nat (start + int m * step)) n]"
    using Suc by simp
  have m1: "min (nat (start + int m * step)) n = nat (start + int m * step)"
    using lt by simp
  have "0 \<le> int m * step" using assms by simp
  hence le1: "nat start \<le> nat (start + int m * step)" by linarith
  have le2: "nat (start + int m * step) \<le> min (nat (start + int m * step + step)) n"
    using lt assms \<open>0 \<le> int m * step\<close> by (intro min.boundedI) linarith+
  have e: "start + int (Suc m) * step = start + int m * step + step"
    by (simp add: algebra_simps)
  let ?f = "\<lambda>k. [nat (start + int k * step) ..< min (nat (start + int k * step + step)) n]"
  have "concat (map ?f [0..<Suc m]) = concat (map ?f [0..<m]) @ ?f m"
    by simp
  also have "\<dots> = [nat start ..< nat (start + int m * step)] @ ?f m"
    using ih m1 by simp
  also have "\<dots> = [nat start ..< min (nat (start + int m * step + step)) n]"
    using le1 le2 by (rule upt_split)
  finally show ?case unfolding e .
qed

lemma py_range_pos:
  "0 < step \<Longrightarrow> py_range start stop step
     = Inr (map (\<lambda>k. start + int k * step) [0..<nat ((stop - start + step - 1) div step)])"
  by (simp add: py_range_def)

lemma test_rows_upt:
  assumes "0 \<le> i" "0 < step"
  shows "test_rows n step i = [min (nat i) n ..< min (nat (i + step)) n]"
  using assms by (simp add: test_rows_def py_slice_upt slice_index_def)

lemma test_rows_in:
  assumes "0 \<le> i" "i < int n" "0 < step"
  shows "test_rows n step i = [nat i ..< min (nat (i + step)) n]"
proof -
  have "min (nat i) n = nat i" using assms by simp
  thus ?thesis using test_rows_upt[OF assms(1,3), of n] by simp
qed

lemma train_rows_upt:
  assumes "0 \<le> i"
  shows "train_rows n i = [0 ..< min (nat i) n]"
  using assms by (simp add: train_rows_def py_slice_upt slice_index_def)

lemma map_nth_upt_drop: "map ((!) xs) [a..<length xs] = drop a xs"
  by (simp add: list_eq_iff_nth_eq)

lemma index_take_rows: "index (take_rows ps df) = map ((!) (index df)) ps"
  by (simp add: take_rows_def)

lemma index_iloc_test: "index (iloc df i (i + step)) = map ((!) (index df)) (test_rows (nrows df) step i)"
  by (simp add: iloc_def test_rows_def index_take_rows)

lemma predict_index:
  "predict train test predictors model m = Inr (m', p) \<Longrightarrow> index p = index test"
  by (auto simp: predict_def and_then_def split: sum.splits)

lemma backtest_loop_index:
  "backtest_loop data model predictors step is m acc = Inr (m', ps) \<Longrightarrow>
   map index ps = map index acc @ map (\<lambda>i. index (iloc data i (i + step))) is"
proof (induction "is" arbitrary: m acc)
  case Nil
  then show ?case by simp
next
  case (Cons i rest)
  from Cons.prems obtain m1 p where
    p: "predict (iloc data 0 i) (iloc data i (i + step)) predictors model m = Inr (m1, p)"
    and r: "backtest_loop data model predictors step rest m1 (acc @ [p]) = Inr (m', ps)"
    by (auto simp: Let_def split: sum.splits)
  from Cons.IH[OF r] predict_index[OF p] show ?case by simp
qed

lemma concat_onto_index:
  "concat_onto acc fs = Inr out \<Longrightarrow> index out = index acc @ concat (map index fs)"
proof (induction fs arbitrary: acc)
  case Nil
  then show ?case by simp
next
  case (Cons f fs)
  then show ?case by (auto split: option.splits)
qed

lemma pd_concat_index: "pd_concat fs = Inr out \<Longrightarrow> index out = concat (map index fs)"
  by (cases fs) (auto simp: pd_concat_def dest: concat_onto_index)

lemma backtest_index:
  assumes "backtest data model m predictors start step = Inr (m', out)"
    and "py_range start (int (nrows data)) step = Inr is"
  shows "index out = map ((!) (index data)) (concat (map (test_rows (nrows data) step) is))"
proof -
  from assms obtain ps where
    l: "backtest_loop data model predictors step is m [] = Inr (m', ps)"
    and c: "pd_concat ps = Inr out"
    by (auto simp: backtest_def and_then_def split: sum.splits)
  have "index out = concat (map index ps)" using c by (rule pd_concat_index)
  also have "map index ps = map (\<lambda>i. index (iloc data i (i + step))) is"
    using backtest_loop_index[OF l] by simp
  also have "\<dots> = map (\<lambda>i. map ((!) (index data)) (test_rows (nrows data) step i)) is"
    by (simp add: index_iloc_test)
  finally show ?thesis by (simp add: map_concat comp_def)
qed

lemma folds_cover:
  fixes start step :: int
  assumes "0 \<le> start" "0 < step" "start < int n"
  defines "is \<equiv> map (\<lambda>k. start + int k * step) [0..<nat ((int n - start + step - 1) div step)]"
  shows "concat (map (test_rows n step) is) = [nat start ..< n]"
proof -
  define q where "q = (int n - start + step - 1) div step"
  have q1: "int n - start \<le> q * step" and q2: "\<And>k. k < q \<Longrightarrow> start + k * step < int n"
    unfolding q_def using range_pos_len[OF assms(2), where stop = "int n" and start = start] by auto
  have qpos: "0 \<le> q" unfolding q_def using assms by (simp add: pos_imp_zdiv_nonneg_iff)
  have lt: "\<And>k. k < nat q \<Longrightarrow> start + int k * step < int n"
    using q2 by simp
  have nn: "\<And>k. 0 \<le> start + int k * step" using assms by simp
  have "concat (map (test_rows n step) is)
        = concat (map (\<lambda>k. test_rows n step (start + int k * step)) [0..<nat q])"
    by (simp add: is_def q_def comp_def)
  also have "\<dots> = concat (map (\<lambda>k. [nat (start + int k * step) ..< min (nat (start + int k * step + step)) n]) [0..<nat q])"
  proof -
    have "\<And>k. k \<in> set [0..<nat q] \<Longrightarrow> test_rows n step (start + int k * step)
           = [nat (start + int k * step) ..< min (nat (start + int k * step + step)) n]"
      using lt nn assms(2) by (simp add: test_rows_in)
    thus ?thesis by (metis (no_types, lifting) map_eq_conv)
  qed
  also have "\<dots> = [nat start ..< min (nat (start + int (nat q) * step)) n]"
    using assms(1,2) lt by (rule chunks_concat)
  also have "min (nat (start + int (nat q) * step)) n = n"
    using q1 qpos by (simp add: min_def) linarith
  finally show ?thesis .
qed

lemma distinct_concat_disjoint:
  "distinct (concat xss) \<Longrightarrow> j < k \<Longrightarrow> k < length xss \<Longrightarrow> set (xss ! j) \<inter> set (xss ! k) = {}"
proof (induction xss arbitrary: j k)
  case Nil
  then show ?case by simp
next
  case (Cons xs xss)
  show ?case
  proof (cases j)
    case 0
    with Cons.prems obtain k' where k: "k = Suc k'" "k' < length xss"
      by (cases k) auto
    hence "xss ! k' \<in> set xss" by simp
    with Cons.prems(1) have "set xs \<inter> set (xss ! k') = {}" by auto
    with 0 k show ?thesis by simp
  next
    case (Suc j')
    with Cons.prems obtain k' where k: "k = Suc k'" "j' < k'" "k' < length xss"
      by (cases k) auto
    from Cons.prems(1) have "distinct (concat xss)" by simp
    from Cons.IH[OF this k(2,3)] Suc k show ?thesis by simp
  qed
qed

lemma py_range_elems:
  assumes "0 < step" "py_range start stop step = Inr is" "i \<in> set is"
  shows "start \<le> i" "i < stop"
proof -
  from assms obtain k where k: "i = start + int k * step"
    "int k < (stop - start + step - 1) div step"
    by (auto simp: py_range_pos)
  have "0 \<le> int k * step" using assms(1) by simp
  thus "start \<le> i" using k by simp
  show "i < stop" using range_pos_len(2)[OF assms(1) k(2)] k by simp
qed

text \<open>Claim C2.  For a frame of \<open>N\<close> rows, a first test row \<open>start\<close> with \<open>0 \<le> start < N\<close>
  (\<open>start\<close> is the size of the first training set) and \<open>step \<ge> 1\<close>, the loop visits
  \<open>i = start, start + step, \<dots>\<close>; the test slice at \<open>i\<close> holds the rows \<open>[i, min(i + step, N))\<close>; the
  slices, in loop order, list every row of \<open>[start, N)\<close> exactly once, so they are pairwise
  disjoint; and whenever \<open>backtest\<close> returns, its prediction table has exactly the row labels
  of the rows \<open>start, \<dots>, N - 1\<close>, in order.\<close>

theorem backtest_folds_partition:
  assumes "0 \<le> start" "start < int (nrows data)" "1 \<le> step"
  shows "\<exists>is. py_range start (int (nrows data)) step = Inr is
          \<and> (\<forall>i\<in>set is. test_rows (nrows data) step i
                            = [nat i ..< min (nat (i + step)) (nrows data)])
          \<and> concat (map (test_rows (nrows data) step) is) = [nat start ..< nrows data]
          \<and> (\<forall>j k. j < k \<and> k < length is \<longrightarrow>
                 set (test_rows (nrows data) step (is ! j))
                   \<inter> set (test_rows (nrows data) step (is ! k)) = {})
          \<and> (\<forall>m' out. backtest data model m predictors start step = Inr (m', out) \<longrightarrow>
                 index out = drop (nat start) (index data))"
proof -
  let ?n = "nrows data"
  define "is" where "is = map (\<lambda>k. start + int k * step) [0..<nat ((int ?n - start + step - 1) div step)]"
  have sp: "0 < step" using assms(3) by simp
  have r: "py_range start (int ?n) step = Inr is"
    using sp by (simp add: py_range_pos is_def)
  have each: "\<forall>i\<in>set is. test_rows ?n step i = [nat i ..< min (nat (i + step)) ?n]"
  proof
    fix i assume i: "i \<in> set is"
    have "start \<le> i" "i < int ?n" using py_range_elems[OF sp r i] by auto
    thus "test_rows ?n step i = [nat i ..< min (nat (i + step)) ?n]"
      using assms(1) sp by (simp add: test_rows_in)
  qed
  have cover: "concat (map (test_rows ?n step) is) = [nat start ..< ?n]"
    unfolding is_def using assms(1) sp assms(2) by (rule folds_cover)
  have disj: "\<forall>j k. j < k \<and> k < length is \<longrightarrow>
                 set (test_rows ?n step (is ! j)) \<inter> set (test_rows ?n step (is ! k)) = {}"
  proof (intro allI impI)
    fix j k assume jk: "j < k \<and> k < length is"
    have "distinct (concat (map (test_rows ?n step) is))" by (simp add: cover)
    from distinct_concat_disjoint[OF this, of j k] jk
    show "set (test_rows ?n step (is ! j)) \<inter> set (test_rows ?n step (is ! k)) = {}"
      by simp
  qed
  have out: "\<forall>m' out. backtest data model m predictors start step = Inr (m', out) \<longrightarrow>
                 index out = drop (nat start) (index data)"
  proof (intro allI impI)
    fix m' out assume b: "backtest data model m predictors start step = Inr (m', out)"
    have "index out = map ((!) (index data)) [nat start ..< ?n]"
      using backtest_index[OF b r] cover by simp
    thus "index out = drop (nat start) (index data)"
      by (simp add: nrows_def map_nth_upt_drop)
  qed
  from r each cover disj out show ?thesis by blast
qed

lemma backtest_unfold:
  assumes "py_range start (int (nrows data)) step = Inr is"
  shows "backtest data model m predictors start step
         = and_then (backtest_loop data model predictors step is m []) (\<lambda>(m', all_predictions).
           and_then (pd_concat all_predictions) (\<lambda>out. Inr (m', out)))"
  by (simp add: backtest_def assms and_then_def)

text \<open>Claim C3.  Let \<open>start \<ge> 0\<close> and \<open>step \<ge> 1\<close>.  \<open>backtest\<close> runs its loop over the range, and at
  every \<open>i\<close> of the range the loop calls \<open>predict\<close> with the training frame of the rows \<open>[0, i)\<close>
  and the test frame of the rows \<open>[i, min(i + step, N))\<close>, then goes on with the rest of the
  range, the refitted model and the fold's predictions appended; a fold's predictions carry
  the row labels of its test rows; and every training row position is strictly smaller
  than every test row position.\<close>

theorem backtest_train_precedes_test:
  assumes "0 \<le> start" "1 \<le> step"
    and "py_range start (int (nrows data)) step = Inr is" "i \<in> set is"
  shows "iloc data 0 i = take_rows [0 ..< nat i] data
       \<and> iloc data i (i + step) = take_rows [nat i ..< min (nat (i + step)) (nrows data)] data
       \<and> train_rows (nrows data) i = [0 ..< nat i]
       \<and> test_rows (nrows data) step i = [nat i ..< min (nat (i + step)) (nrows data)]
       \<and> (\<forall>a\<in>set (train_rows (nrows data) i). \<forall>b\<in>set (test_rows (nrows data) step i). a < b)
       \<and> backtest data model m0 predictors start step
           = and_then (backtest_loop data model predictors step is m0 []) (\<lambda>(m', all_predictions).
             and_then (pd_concat all_predictions) (\<lambda>out. Inr (m', out)))
       \<and> backtest_loop data model predictors step (i # rest) m acc
           = (case predict (take_rows [0 ..< nat i] data)
                     (take_rows [nat i ..< min (nat (i + step)) (nrows data)] data)
                     predictors model m of
                Inl e \<Rightarrow> Inl e
              | Inr (m', predictions) \<Rightarrow>
                  backtest_loop data model predictors step rest m' (acc @ [predictions]))
       \<and> (\<forall>m' predictions.
             predict (take_rows [0 ..< nat i] data)
               (take_rows [nat i ..< min (nat (i + step)) (nrows data)] data) predictors model m
               = Inr (m', predictions)
             \<longrightarrow> index predictions
                   = map ((!) (index data)) [nat i ..< min (nat (i + step)) (nrows data)])"
proof -
  have sp: "0 < step" using assms(2) by simp
  have i: "0 \<le> i" "i < int (nrows data)"
    using py_range_elems[OF sp assms(3,4)] assms(1) by auto
  have tr: "train_rows (nrows data) i = [0 ..< nat i]"
    using i by (simp add: train_rows_upt)
  have te: "test_rows (nrows data) step i = [nat i ..< min (nat (i + step)) (nrows data)]"
    using i sp by (simp add: test_rows_in)
  have "iloc data 0 i = take_rows (train_rows (nrows data) i) data"
    by (simp add: iloc_def train_rows_def)
  hence a: "iloc data 0 i = take_rows [0 ..< nat i] data" using tr by simp
  have "iloc data i (i + step) = take_rows (test_rows (nrows data) step i) data"
    by (simp add: iloc_def test_rows_def)
  hence b: "iloc data i (i + step) = take_rows [nat i ..< min (nat (i + step)) (nrows data)] data"
    using te by simp
  have ord: "\<forall>a\<in>set (train_rows (nrows data) i). \<forall>b\<in>set (test_rows (nrows data) step i). a < b"
    unfolding tr te by auto
  have run: "backtest data model m0 predictors start step
           = and_then (backtest_loop data model predictors step is m0 []) (\<lambda>(m', all_predictions).
             and_then (pd_concat all_predictions) (\<lambda>out. Inr (m', out)))"
    using assms(3) by (rule backtest_unfold)
  have loop: "backtest_loop data model predictors step (i # rest) m acc
           = (case predict (take_rows [0 ..< nat i] data)
                     (take_rows [nat i ..< min (nat (i + step)) (nrows data)] data)
                     predictors model m of
                Inl e \<Rightarrow> Inl e
              | Inr (m', predictions) \<Rightarrow>
                  backtest_loop data model predictors step rest m' (acc @ [predictions]))"
    unfolding backtest_loop.simps Let_def a b by (rule refl)
  have lab: "\<forall>m' predictions.
             predict (take_rows [0 ..< nat i] data)
               (take_rows [nat i ..< min (nat (i + step)) (nrows data)] data) predictors model m
               = Inr (m', predictions)
             \<longrightarrow> index predictions
                   = map ((!) (index data)) [nat i ..< min (nat (i + step)) (nrows data)]"
  proof (intro allI impI)
    fix m' predictions
    assume "predict (take_rows [0 ..< nat i] data)
               (take_rows [nat i ..< min (nat (i + step)) (nrows data)] data) predictors model m
               = Inr (m', predictions)"
    from predict_index[OF this]
    show "index predictions = map ((!) (index data)) [nat i ..< min (nat (i + step)) (nrows data)]"
      by (simp add: index_take_rows)
  qed
  from a b tr te ord run loop lab show ?thesis by blast
qed

text \<open>Claim C9.  When the frame has no more than \<open>start\<close> rows (and \<open>step \<ge> 1\<close>) the range is
  empty, the loop body never runs, and \<open>backtest\<close> fails with the ValueError that
  \<open>pd.concat\<close> raises on an empty list.\<close>

theorem backtest_no_folds_error:
  assumes "int (nrows data) \<le> start" "1 \<le> step"
  shows "py_range start (int (nrows data)) step = Inr []
       \<and> backtest_loop data model predictors step [] m [] = Inr (m, [])
       \<and> backtest data model m predictors start step = Inl ValueError"
proof -
  have "(int (nrows data) - start + step - 1) div step \<le> 0"
  proof -
    have "int (nrows data) - start + step - 1 < step" using assms by simp
    thus ?thesis using assms(2)
      by (cases "0 \<le> int (nrows data) - start + step - 1")
         (simp_all add: div_pos_pos_trivial div_neg_pos_less0 less_imp_le)
  qed
  hence r: "py_range start (int (nrows data)) step = Inr []"
    using assms(2) by (simp add: py_range_def)
  thus ?thesis by (simp add: backtest_def and_then_def pd_concat_def)
qed

lemma getitem_setitem:
  "getitem (setitem df n c) n' = (if n' = n then Inr c else getitem df n')"
  by (simp add: getitem_def setitem_def update_conv')

lemma index_setitem: "index (setitem df n c) = index df"
  by (simp add: setitem_def)

lemma shift_back_one:
  "shift_list fill (- 1) xs = map (\<lambda>t. if t + 1 < length xs then xs ! (t + 1) else fill) [0..<length xs]"
proof -
  have "shift_list fill (- 1) xs = drop 1 xs @ replicate (min 1 (length xs)) fill"
    by (simp add: shift_list_def)
  also have "\<dots> = map (\<lambda>t. if t + 1 < length xs then xs ! (t + 1) else fill) [0..<length xs]"
  proof (rule nth_equalityI)
    show "length (drop 1 xs @ replicate (min 1 (length xs)) fill)
          = length (map (\<lambda>t. if t + 1 < length xs then xs ! (t + 1) else fill) [0..<length xs])"
      by (cases xs) simp_all
  next
    fix i assume "i < length (drop 1 xs @ replicate (min 1 (length xs)) fill)"
    hence i: "i < length xs" by (cases xs) simp_all
    show "(drop 1 xs @ replicate (min 1 (length xs)) fill) ! i
          = map (\<lambda>t. if t + 1 < length xs then xs ! (t + 1) else fill) [0..<length xs] ! i"
      using i by (cases "i + 1 < length xs") (auto simp: nth_append)
  qed
  finally show ?thesis .
qed

text \<open>Claim C1, as the code has it.  For a numeric close column of \<open>N\<close> rows the labelling
  succeeds and removes no row; \<open>tomorrow\<close> at row \<open>t\<close> is \<open>close[t+1]\<close>, and NaN at the final row;
  \<open>target\<close> at row \<open>t\<close> is 1 if \<open>t\<close> is not the final row and \<open>close[t+1] > close[t]\<close>, and 0
  otherwise.  In particular the final row is labelled 0: the comparison with its missing
  \<open>tomorrow\<close> is false, and the integer column has no missing value.\<close>

theorem create_targets_labels:
  assumes "getitem df ''close'' = Inr (NumCol cs)"
  shows "\<exists>out. create_targets df = Inr out
       \<and> index out = index df
       \<and> getitem out ''tomorrow''
           = Inr (NumCol (map (\<lambda>t. if t + 1 < length cs then cs ! (t + 1) else NaN) [0..<length cs]))
       \<and> getitem out ''target''
           = Inr (NumCol (map (\<lambda>t. if t + 1 < length cs \<and> fgt (cs ! (t + 1)) (cs ! t)
                                   then Num 1 else Num 0) [0..<length cs]))"
proof -
  let ?tm = "map (\<lambda>t. if t + 1 < length cs then cs ! (t + 1) else NaN) [0..<length cs]"
  let ?df1 = "setitem df ''tomorrow'' (NumCol ?tm)"
  let ?up = "map (\<lambda>(x, y). fgt x y) (zip ?tm cs)"
  have s1: "col_shift (- 1) (NumCol cs) = NumCol ?tm"
    by (simp add: shift_back_one)
  have g1: "getitem ?df1 ''tomorrow'' = Inr (NumCol ?tm)"
    by (simp add: getitem_setitem)
  have g2: "getitem ?df1 ''close'' = Inr (NumCol cs)"
    using assms by (simp add: getitem_setitem)
  have c: "create_targets df = Inr (setitem ?df1 ''target'' (NumCol (astype_int ?up)))"
    unfolding create_targets_def assms and_then_def Let_def sum.case s1 g1 g2 col_gt.simps
    by (rule refl)
  have "astype_int ?up = map (\<lambda>t. if t + 1 < length cs \<and> fgt (cs ! (t + 1)) (cs ! t)
                                   then Num 1 else Num 0) [0..<length cs]"
    unfolding astype_int_def by (rule nth_equalityI) simp_all
  thus ?thesis using c by (simp add: getitem_setitem index_setitem)
qed

theorem create_targets_labels_witness:
  "getitem scenario_prices ''close'' = Inr (NumCol [Num 100, Num 102, Num 101, Num 105, Num 103])
   \<and> create_targets scenario_prices = Inr scenario_labelled
   \<and> getitem scenario_labelled ''target'' = Inr (NumCol [Num 1, Num 0, Num 1, Num 0, Num 0])"
proof -
  have h: "getitem scenario_prices ''close'' = Inr (NumCol [Num 100, Num 102, Num 101, Num 105, Num 103])"
    by (simp add: getitem_def scenario_prices_def)
  have e: "create_targets scenario_prices = Inr scenario_labelled"
    by (simp add: create_targets_def scenario_prices_def scenario_labelled_def getitem_def
        setitem_def and_then_def shift_list_def astype_int_def)
  from create_targets_labels[OF h] e
  have "getitem scenario_labelled ''target''
           = Inr (NumCol (map (\<lambda>t. if t + 1 < length [Num 100, Num 102, Num 101, Num 105, Num 103] \<and> fgt ([Num 100, Num 102, Num 101, Num 105, Num 103] ! (t + 1)) ([Num 100, Num 102, Num 101, Num 105, Num 103] ! t)
                                   then Num 1 else Num 0) [0..<length [Num 100, Num 102, Num 101, Num 105, Num 103]]))"
    by auto
  hence "getitem scenario_labelled ''target'' = Inr (NumCol [Num 1, Num 0, Num 1, Num 0, Num 0])"
    by (simp add: upt_rec[of _ "Suc _"] upt_rec[of _ 5])
  with h e show ?thesis by simp
qed

text \<open>Claim C1 as stated fails on the scenario prices \<open>[100, 102, 101, 105, 103]\<close>: the final row
  is still in the labelled frame, its target is the number 0 rather than a missing value,
  and a backtest with \<open>start = 3\<close>, \<open>step = 1\<close> has the fold \<open>i = 4\<close> whose test slice is that final
  row.\<close>

theorem create_targets_final_row_counterexample:
  "create_targets scenario_prices = Inr scenario_labelled
   \<and> getitem scenario_labelled ''target'' = Inr (NumCol [Num 1, Num 0, Num 1, Num 0, Num 0])
   \<and> nrows scenario_labelled = 5
   \<and> py_range 3 (int (nrows scenario_labelled)) 1 = Inr [3, 4]
   \<and> test_rows (nrows scenario_labelled) 1 4 = [4]"
proof -
  have e: "create_targets scenario_prices = Inr scenario_labelled"
    by (simp add: create_targets_def scenario_prices_def scenario_labelled_def getitem_def
        setitem_def and_then_def shift_list_def astype_int_def)
  have n: "nrows scenario_labelled = 5" by (simp add: nrows_def scenario_labelled_def)
  have g: "getitem scenario_labelled ''target'' = Inr (NumCol [Num 1, Num 0, Num 1, Num 0, Num 0])"
    by (simp add: getitem_def scenario_labelled_def)
  have r: "py_range 3 5 1 = Inr [3, 4]" by code_simp
  have t: "test_rows 5 1 4 = [4]" by code_simp
  show ?thesis unfolding n using e g r t by simp
qed

theorem backtest_folds_partition_witness:
  "(0::int) \<le> 3 \<and> 3 < int (nrows scenario_labelled) \<and> (1::int) \<le> 1
   \<and> py_range 3 (int (nrows scenario_labelled)) 1 = Inr [3, 4]
   \<and> concat (map (test_rows (nrows scenario_labelled) 1) [3, 4]) = [3, 4]
   \<and> backtest scenario_labelled always_up () [''close''] 3 1
        = Inr ((), \<lparr>index = [3, 4], columns = [(''target'', NumCol [Num 0, Num 0]),
                                              (''Predictions'', NumCol [Num 1, Num 1])]\<rparr>)
   \<and> drop 3 (index scenario_labelled) = [3, 4]"
proof -
  have n: "nrows scenario_labelled = 5" by (simp add: nrows_def scenario_labelled_def)
  have h: "(0::int) \<le> 3" "3 < int (nrows scenario_labelled)" "(1::int) \<le> 1"
    by (simp_all add: n)
  from backtest_folds_partition[OF h, of always_up "()" "[''close'']"] obtain "is" where
    a: "py_range 3 (int (nrows scenario_labelled)) 1 = Inr is"
    and b: "concat (map (test_rows (nrows scenario_labelled) 1) is) = [nat 3 ..< nrows scenario_labelled]"
    and c: "\<forall>m' out. backtest scenario_labelled always_up () [''close''] 3 1 = Inr (m', out)
              \<longrightarrow> index out = drop (nat 3) (index scenario_labelled)"
    by blast
  have e: "py_range 3 5 1 = Inr [3, 4]" by code_simp
  have bt: "backtest scenario_labelled always_up () [''close''] 3 1
        = Inr ((), \<lparr>index = [3, 4], columns = [(''target'', NumCol [Num 0, Num 0]),
                                              (''Predictions'', NumCol [Num 1, Num 1])]\<rparr>)"
    by code_simp
  from a e n have i: "is = [3, 4]" by simp
  have u: "[nat 3 ..< 5] = [3, 4]" by code_simp
  from c bt have d: "drop 3 (index scenario_labelled) = [3, 4]" by auto
  from b i n u e bt d h show ?thesis by simp
qed

theorem backtest_train_precedes_test_witness:
  "(0::int) \<le> 3 \<and> (1::int) \<le> 1
   \<and> py_range 3 (int (nrows scenario_labelled)) 1 = Inr [3, 4] \<and> (4::int) \<in> set [3, 4]
   \<and> train_rows (nrows scenario_labelled) 4 = [0, 1, 2, 3]
   \<and> test_rows (nrows scenario_labelled) 1 4 = [4]
   \<and> index (iloc scenario_labelled 0 4) = [0, 1, 2, 3]
   \<and> index (iloc scenario_labelled 4 (4 + 1)) = [4]
   \<and> predict (take_rows [0, 1, 2, 3] scenario_labelled) (take_rows [4] scenario_labelled)
         [''close''] always_up ()
       = Inr ((), \<lparr>index = [4], columns = [(''target'', NumCol [Num 0]),
                                            (''Predictions'', NumCol [Num 1])]\<rparr>)
   \<and> backtest_loop scenario_labelled always_up [''close''] 1 [4] () []
       = Inr ((), [\<lparr>index = [4], columns = [(''target'', NumCol [Num 0]),
                                             (''Predictions'', NumCol [Num 1])]\<rparr>])"
proof -
  have n: "nrows scenario_labelled = 5" by (simp add: nrows_def scenario_labelled_def)
  have e: "py_range 3 (int (nrows scenario_labelled)) 1 = Inr [3, 4]"
    unfolding n by code_simp
  have h: "(0::int) \<le> 3" "(1::int) \<le> 1" "(4::int) \<in> set [3, 4]" by simp_all
  note t = backtest_train_precedes_test[OF h(1,2) e h(3), of always_up "()" "[''close'']" "[]" "()" "[]"]
  have u: "[0 ..< nat 4] = [0, 1, 2, 3]" "[nat 4 ..< min (nat (4 + 1)) 5] = [4]" by code_simp+
  have ix: "index scenario_labelled = [0, 1, 2, 3, 4]" by (simp add: scenario_labelled_def)
  from t have "train_rows (nrows scenario_labelled) 4 = [0, 1, 2, 3]"
    "test_rows (nrows scenario_labelled) 1 4 = [4]"
    "index (iloc scenario_labelled 0 4) = [0, 1, 2, 3]"
    "index (iloc scenario_labelled 4 (4 + 1)) = [4]"
    unfolding n u by (simp_all add: index_take_rows ix)
  moreover have p: "predict (take_rows [0, 1, 2, 3] scenario_labelled) (take_rows [4] scenario_labelled)
         [''close''] always_up ()
       = Inr ((), \<lparr>index = [4], columns = [(''target'', NumCol [Num 0]),
                                            (''Predictions'', NumCol [Num 1])]\<rparr>)"
    by code_simp
  moreover from t have "backtest_loop scenario_labelled always_up [''close''] 1 [4] () []
       = Inr ((), [\<lparr>index = [4], columns = [(''target'', NumCol [Num 0]),
                                             (''Predictions'', NumCol [Num 1])]\<rparr>])"
    unfolding n u using p by simp
  ultimately show ?thesis using e h by simp
qed

theorem backtest_no_folds_error_witness:
  "int (nrows scenario_labelled) \<le> 500 \<and> (1::int) \<le> 50
   \<and> py_range 500 (int (nrows scenario_labelled)) 50 = Inr []
   \<and> backtest scenario_labelled always_up () [''close''] 500 50 = Inl ValueError"
proof -
  have h: "int (nrows scenario_labelled) \<le> 500" "(1::int) \<le> 50"
    by (simp_all add: nrows_def scenario_labelled_def)
  from backtest_no_folds_error[OF h, of always_up "[''close'']" "()"] h show ?thesis by simp
qed

section \<open>Technical features: names, columns and kept rows\<close>

lemma digit_value: "d < 10 \<Longrightarrow> of_char (''0123456789'' ! d) - 48 = (d::nat)"
proof -
  assume "d < 10"
  hence "d < Suc (Suc (Suc (Suc (Suc (Suc (Suc (Suc (Suc (Suc 0)))))))))" by simp
  thus ?thesis by (auto simp: less_Suc_eq)
qed

lemma digits_value_snoc: "digits_value (s @ [c]) = 10 * digits_value s + (of_char c - 48)"
  by (simp add: digits_value_def)

lemma digits_value_str_nat: "digits_value (str_nat n) = n"
proof (induction n rule: str_nat.induct)
  case (1 n)
  show ?case
  proof (cases "n < 10")
    case True
    have "str_nat n = [''0123456789'' ! n]" using True by (subst str_nat.simps) simp
    thus ?thesis using digit_value[OF True] by (simp add: digits_value_def)
  next
    case False
    have e: "str_nat n = str_nat (n div 10) @ [''0123456789'' ! (n mod 10)]"
      using False by (subst str_nat.simps) simp
    have "digits_value (str_nat n) = 10 * (n div 10) + n mod 10"
      unfolding e digits_value_snoc using 1[OF False] digit_value[of "n mod 10"] by simp
    thus ?thesis by simp
  qed
qed

lemma str_nat_inj: "str_nat a = str_nat b \<Longrightarrow> a = b"
  by (metis digits_value_str_nat)

lemma str_nat_not_minus: "str_nat n \<noteq> CHR ''-'' # s"
proof
  assume a: "str_nat n = CHR ''-'' # s"
  have "\<And>n. hd (str_nat n) \<in> set ''0123456789'' \<and> str_nat n \<noteq> []"
  proof -
    fix n show "hd (str_nat n) \<in> set ''0123456789'' \<and> str_nat n \<noteq> []"
    proof (induction n rule: str_nat.induct)
      case (1 n)
      show ?case
      proof (cases "n < 10")
        case True
        hence "str_nat n = [''0123456789'' ! n]" by (subst str_nat.simps) simp
        moreover have "''0123456789'' ! n \<in> set ''0123456789''"
          using True by (intro nth_mem) simp
        ultimately show ?thesis by simp
      next
        case False
        hence e: "str_nat n = str_nat (n div 10) @ [''0123456789'' ! (n mod 10)]"
          by (subst str_nat.simps) simp
        show ?thesis unfolding e using 1[OF False] by simp
      qed
    qed
  qed
  from this[of n] a show False by simp
qed

lemma str_int_inj: "str_int a = str_int b \<Longrightarrow> a = b"
proof -
  assume e: "str_int a = str_int b"
  show "a = b"
  proof (cases "a < 0"; cases "b < 0")
    assume "a < 0" "b < 0"
    with e have "nat (- a) = nat (- b)" by (simp add: str_int_def str_nat_inj)
    with \<open>a < 0\<close> \<open>b < 0\<close> show ?thesis by simp
  next
    assume "a < 0" "\<not> b < 0"
    with e show ?thesis using str_nat_not_minus[of "nat b" "str_nat (nat (- a))"]
      by (simp add: str_int_def)
  next
    assume "\<not> a < 0" "b < 0"
    with e show ?thesis using str_nat_not_minus[of "nat a" "str_nat (nat (- b))"]
      by (simp add: str_int_def)
  next
    assume "\<not> a < 0" "\<not> b < 0"
    with e have "nat a = nat b" by (simp add: str_int_def str_nat_inj)
    with \<open>\<not> a < 0\<close> \<open>\<not> b < 0\<close> show ?thesis by simp
  qed
qed

lemma str_int_eq_iff: "str_int a = str_int b \<longleftrightarrow> a = b"
  using str_int_inj by auto

lemma numeric_setitem:
  "numeric (setitem df n (NumCol xs)) n' = (if n' = n then Inr xs else numeric df n')"
  by (simp add: numeric_def getitem_setitem and_then_def)

lemma nrows_setitem: "nrows (setitem df n c) = nrows df"
  by (simp add: nrows_def setitem_def)

lemma set_columns_Nil: "set_columns df [] = df"
  by (simp add: set_columns_def)

lemma set_columns_Cons:
  "set_columns df (nv # cols) = set_columns (setitem df (fst nv) (NumCol (snd nv))) cols"
  by (simp add: set_columns_def)

lemma set_columns_append: "set_columns df (a @ b) = set_columns (set_columns df a) b"
  by (simp add: set_columns_def)

lemma index_set_columns: "index (set_columns df cols) = index df"
  by (induction cols arbitrary: df) (simp_all add: set_columns_Nil set_columns_Cons index_setitem)

lemma nrows_set_columns: "nrows (set_columns df cols) = nrows df"
  by (simp add: nrows_def index_set_columns)

lemma getitem_set_columns:
  "getitem (set_columns df cols) n
     = (case map_of (rev cols) n of Some v \<Rightarrow> Inr (NumCol v) | None \<Rightarrow> getitem df n)"
proof (induction cols arbitrary: df)
  case Nil
  then show ?case by (simp add: set_columns_Nil)
next
  case (Cons nv cols)
  show ?case
    unfolding set_columns_Cons Cons.IH
    by (cases nv) (auto simp: getitem_setitem map_add_def split: option.splits)
qed

lemma numeric_set_columns_other:
  "n \<notin> fst ` set cols \<Longrightarrow> numeric (set_columns df cols) n = numeric df n"
proof -
  assume "n \<notin> fst ` set cols"
  hence "map_of (rev cols) n = None" by (simp add: map_of_eq_None_iff)
  thus ?thesis by (simp add: numeric_def getitem_set_columns)
qed

lemma feature_cols_names: "map fst (feature_cols h c tg) = feature_names h"
  by (simp add: feature_cols_def feature_names_def Let_def)

lemma close_not_feature: "''close'' \<notin> set (feature_names h)"
  by (simp add: feature_names_def)

lemma target_not_feature: "''target'' \<notin> set (feature_names h)"
  by (simp add: feature_names_def)

lemma ohlc_step_ok:
  assumes c: "numeric df ''close'' = Inr close"
    and t: "numeric df ''target'' = Inr target"
    and h: "1 \<le> horizon"
  shows "ohlc_step df horizon = Inr (set_columns df (feature_cols horizon close target))"
  using h
  by (simp add: ohlc_step_def check_window_def and_then_def numeric_setitem c t Let_def
      ewm_mean_def feature_cols_def set_columns_def rsi_gain_def rsi_loss_def)

lemma distinct_feature_names: "distinct (feature_names h)"
  by (simp add: feature_names_def)

lemma str_nat_head: "\<exists>x xs. str_nat n = x # xs \<and> x \<in> set ''0123456789''"
proof (induction n rule: str_nat.induct)
  case (1 n)
  show ?case
  proof (cases "n < 10")
    case True
    hence "str_nat n = [''0123456789'' ! n]" by (subst str_nat.simps) simp
    moreover have "''0123456789'' ! n \<in> set ''0123456789''"
      using True by (intro nth_mem) simp
    ultimately show ?thesis by blast
  next
    case False
    hence e: "str_nat n = str_nat (n div 10) @ [''0123456789'' ! (n mod 10)]"
      by (subst str_nat.simps) simp
    from 1[OF False] obtain x xs where "str_nat (n div 10) = x # xs" "x \<in> set ''0123456789''"
      by blast
    thus ?thesis unfolding e by simp
  qed
qed

lemma str_int_head: "\<exists>x xs. str_int i = x # xs \<and> x \<in> set ''0123456789-''"
proof (cases "i < 0")
  case True
  then show ?thesis by (simp add: str_int_def)
next
  case False
  from str_nat_head[of "nat i"] obtain x xs where "str_nat (nat i) = x # xs" "x \<in> set ''0123456789''"
    by blast
  thus ?thesis using False by (auto simp: str_int_def)
qed

lemma feature_name_suffix:
  assumes "n \<in> set (feature_names h)"
  shows "dropWhile (\<lambda>c. c \<notin> set ''0123456789-'') n = str_int h"
proof -
  define NP where "NP = (\<lambda>c::char. c \<notin> set ''0123456789-'')"
  from str_int_head[of h] obtain x xs where x: "str_int h = x # xs" "x \<in> set ''0123456789-''"
    by blast
  have "\<not> NP x" unfolding NP_def using x(2) by blast
  hence d: "dropWhile NP (str_int h) = str_int h" unfolding x(1) by simp
  have L: "\<And>p. set p \<subseteq> set ''ABCEILMRSTUVabcdeghilmnoprstuvwy_'' \<Longrightarrow>
            dropWhile NP (p @ str_int h) = str_int h"
  proof -
    fix p :: string assume p: "set p \<subseteq> set ''ABCEILMRSTUVabcdeghilmnoprstuvwy_''"
    have "\<And>c. c \<in> set p \<Longrightarrow> NP c"
    proof -
      fix c assume "c \<in> set p"
      hence "c \<in> set ''ABCEILMRSTUVabcdeghilmnoprstuvwy_''" using p by blast
      thus "NP c" unfolding NP_def by auto
    qed
    thus "dropWhile NP (p @ str_int h) = str_int h" by (simp add: dropWhile_append2 d)
  qed
  have "n \<in> {''Close_Ratio_'' @ str_int h, ''Trend_'' @ str_int h, ''Volatility_'' @ str_int h,
      ''Momentum_'' @ str_int h, ''EMA_'' @ str_int h, ''RSI_'' @ str_int h,
      ''Bollinger_Upper_'' @ str_int h, ''Bollinger_Lower_'' @ str_int h,
      ''Cumulative_Return_'' @ str_int h}"
    using assms unfolding feature_names_def by simp
  hence "dropWhile NP n = str_int h"
    by (elim insertE emptyE; hypsubst; intro L; simp)
  thus ?thesis unfolding NP_def .
qed

lemma feature_names_disjoint:
  assumes "n \<in> set (feature_names h)" "n \<in> set (feature_names h')"
  shows "h = h'"
  using feature_name_suffix[OF assms(1)] feature_name_suffix[OF assms(2)] str_int_inj by simp

lemma feature_cols_functional:
  assumes "(n, v) \<in> set (feature_cols h c tg)" "(n, v') \<in> set (feature_cols h' c tg)"
  shows "v = v'"
proof -
  have "n \<in> set (feature_names h)" "n \<in> set (feature_names h')"
    using assms feature_cols_names by (metis fst_conv image_eqI set_map)+
  hence "h = h'" by (rule feature_names_disjoint)
  have "distinct (map fst (feature_cols h c tg))"
    by (simp add: feature_cols_names distinct_feature_names)
  from map_of_is_SomeI[OF this assms(1)] map_of_is_SomeI[OF this] assms(2) \<open>h = h'\<close>
  show ?thesis by simp
qed

lemma all_feature_cols_functional:
  assumes "(n, v) \<in> set (all_feature_cols k hs c tg)" "(n, v') \<in> set (all_feature_cols k hs c tg)"
  shows "v = v'"
proof -
  from assms(1) obtain h where h: "(n, v) \<in> set (feature_cols h c tg)"
    unfolding all_feature_cols_def by auto
  from assms(2) obtain h' where h': "(n, v') \<in> set (feature_cols h' c tg)"
    unfolding all_feature_cols_def by auto
  from h h' show ?thesis by (rule feature_cols_functional)
qed

lemma map_of_rev_functional:
  assumes "(n, v) \<in> set cols" "\<And>v'. (n, v') \<in> set cols \<Longrightarrow> v' = v"
  shows "map_of (rev cols) n = Some v"
proof -
  have "n \<in> fst ` set (rev cols)" using assms(1) by force
  then obtain w where w: "map_of (rev cols) n = Some w"
    by (cases "map_of (rev cols) n") (auto simp: map_of_eq_None_iff)
  hence "(n, w) \<in> set (rev cols)" by (rule map_of_SomeD)
  hence "(n, w) \<in> set cols" by simp
  with assms(2) w show ?thesis by simp
qed

lemma getitem_all_features:
  assumes "(n, v) \<in> set (all_feature_cols k hs c tg)"
  shows "getitem (set_columns df (all_feature_cols k hs c tg)) n = Inr (NumCol v)"
proof -
  have "map_of (rev (all_feature_cols k hs c tg)) n = Some v"
    using assms
  proof (rule map_of_rev_functional)
    fix v' assume "(n, v') \<in> set (all_feature_cols k hs c tg)"
    thus "v' = v" using assms by (rule all_feature_cols_functional)
  qed
  thus ?thesis by (simp add: getitem_set_columns)
qed

lemma close_not_in_features: "''close'' \<notin> fst ` set (feature_cols h c tg)"
proof -
  have "fst ` set (feature_cols h c tg) = set (feature_names h)"
    using feature_cols_names[of h c tg] by (metis set_map)
  thus ?thesis using close_not_feature by simp
qed

lemma target_not_in_features: "''target'' \<notin> fst ` set (feature_cols h c tg)"
proof -
  have "fst ` set (feature_cols h c tg) = set (feature_names h)"
    using feature_cols_names[of h c tg] by (metis set_map)
  thus ?thesis using target_not_feature by simp
qed

lemma ohlc_loop_ok:
  assumes "numeric df ''close'' = Inr c" "numeric df ''target'' = Inr tg"
    and "\<forall>h\<in>set hs. h \<le> int (nrows df) \<longrightarrow> 1 \<le> h"
  shows "ohlc_loop df preds hs
     = Inr (set_columns df (all_feature_cols (nrows df) hs c tg),
            preds @ map fst (all_feature_cols (nrows df) hs c tg))"
  using assms
proof (induction hs arbitrary: df preds)
  case Nil
  then show ?case by (simp add: all_feature_cols_def processed_def set_columns_Nil)
next
  case (Cons h hs)
  show ?case
  proof (cases "int (nrows df) < h")
    case True
    have "ohlc_loop df preds (h # hs) = ohlc_loop df preds hs" using True by simp
    also have "\<dots> = Inr (set_columns df (all_feature_cols (nrows df) hs c tg),
            preds @ map fst (all_feature_cols (nrows df) hs c tg))"
      using Cons.prems by (intro Cons.IH) auto
    also have "all_feature_cols (nrows df) hs c tg = all_feature_cols (nrows df) (h # hs) c tg"
      using True by (simp add: all_feature_cols_def processed_def)
    finally show ?thesis .
  next
    case False
    hence h1: "1 \<le> h" using Cons.prems(3) by simp
    let ?df1 = "set_columns df (feature_cols h c tg)"
    have st: "ohlc_step df h = Inr ?df1"
      using Cons.prems(1,2) h1 by (rule ohlc_step_ok)
    have n1: "nrows ?df1 = nrows df" by (rule nrows_set_columns)
    have c1: "numeric ?df1 ''close'' = Inr c"
      using Cons.prems(1) by (simp add: numeric_set_columns_other close_not_in_features)
    have t1: "numeric ?df1 ''target'' = Inr tg"
      using Cons.prems(2) by (simp add: numeric_set_columns_other target_not_in_features)
    have "ohlc_loop df preds (h # hs) = ohlc_loop ?df1 (preds @ feature_names h) hs"
      using False st by (simp add: and_then_def)
    also have "\<dots> = Inr (set_columns ?df1 (all_feature_cols (nrows ?df1) hs c tg),
            (preds @ feature_names h) @ map fst (all_feature_cols (nrows ?df1) hs c tg))"
      using c1 t1 Cons.prems(3) n1 by (intro Cons.IH) auto
    also have "set_columns ?df1 (all_feature_cols (nrows ?df1) hs c tg)
        = set_columns df (all_feature_cols (nrows df) (h # hs) c tg)"
      using False by (simp add: n1 all_feature_cols_def processed_def set_columns_append)
    also have "(preds @ feature_names h) @ map fst (all_feature_cols (nrows ?df1) hs c tg)
        = preds @ map fst (all_feature_cols (nrows df) (h # hs) c tg)"
      using False by (simp add: n1 all_feature_cols_def processed_def feature_cols_names)
    finally show ?thesis .
  qed
qed

lemma select_all_features:
  assumes "set sub \<subseteq> set (all_feature_cols k hs c tg)"
  shows "select (set_columns df (all_feature_cols k hs c tg)) (map fst sub)
         = Inr (map (\<lambda>nv. NumCol (snd nv)) sub)"
  using assms
proof (induction sub)
  case Nil
  then show ?case by simp
next
  case (Cons nv sub)
  obtain n v where nv: "nv = (n, v)" by (cases nv)
  have "getitem (set_columns df (all_feature_cols k hs c tg)) n = Inr (NumCol v)"
    using Cons.prems nv by (intro getitem_all_features) simp
  thus ?case using Cons nv by (simp add: and_then_def)
qed

lemma create_ohlc_features_ok:
  assumes "numeric df ''close'' = Inr c" "numeric df ''target'' = Inr tg"
    and "\<forall>h\<in>set hs. h \<le> int (nrows df) \<longrightarrow> 1 \<le> h"
  shows "create_ohlc_features df hs
     = Inr (take_rows (kept_rows (all_feature_cols (nrows df) hs c tg) (nrows df))
              (set_columns df (all_feature_cols (nrows df) hs c tg)),
            map fst (all_feature_cols (nrows df) hs c tg))"
proof -
  let ?cols = "all_feature_cols (nrows df) hs c tg"
  have l: "ohlc_loop df [] hs = Inr (set_columns df ?cols, map fst ?cols)"
    using ohlc_loop_ok[OF assms, of "[]"] by simp
  have s: "select (set_columns df ?cols) (map fst ?cols) = Inr (map (\<lambda>nv. NumCol (snd nv)) ?cols)"
    by (rule select_all_features) simp
  have e: "\<And>t. list_ex (\<lambda>c. notna_at c t) (map (\<lambda>nv. NumCol (snd nv)) ?cols)
            = list_ex (\<lambda>nv. snd nv ! t \<noteq> NaN) ?cols"
    by (simp add: list_ex_iff)
  have d: "dropna_all (set_columns df ?cols) (map fst ?cols)
           = Inr (take_rows (kept_rows ?cols (nrows df)) (set_columns df ?cols))"
    by (simp add: dropna_all_def s and_then_def e kept_rows_def nrows_set_columns)
  show ?thesis by (simp add: create_ohlc_features_def l d and_then_def)
qed

lemma map_of_map_snd:
  "map_of (map (\<lambda>nc. (fst nc, f (snd nc))) al) n = map_option f (map_of al n)"
  by (induction al) auto

lemma getitem_take_rows:
  "getitem (take_rows ps df) n
     = (case getitem df n of Inl e \<Rightarrow> Inl e | Inr c \<Rightarrow> Inr (col_take_rows ps c))"
proof -
  have "map_of (map (\<lambda>nc. (fst nc, col_take_rows ps (snd nc))) (columns df)) n
        = map_option (col_take_rows ps) (map_of (columns df) n)"
    by (rule map_of_map_snd)
  thus ?thesis by (simp add: getitem_def take_rows_def split: option.splits)
qed

lemma row_of_label_None: "row_of_label xs l = None \<longleftrightarrow> l \<notin> set xs"
  by (induction xs) auto

lemma row_of_label_Some: "row_of_label xs l = Some j \<Longrightarrow> j < length xs \<and> xs ! j = l"
  by (induction xs arbitrary: j) (auto split: if_splits)

lemma cell_at_take_rows:
  assumes d: "distinct (index df)" and t: "t < nrows df"
    and ps: "set ps \<subseteq> {0..<nrows df}"
    and g: "getitem df n = Inr (NumCol v)"
  shows "cell_at (take_rows ps df) n (index df ! t) = (if t \<in> set ps then Some (v ! t) else None)"
proof (cases "t \<in> set ps")
  case False
  have "index df ! t \<notin> set (map ((!) (index df)) ps)"
  proof
    assume "index df ! t \<in> set (map ((!) (index df)) ps)"
    then obtain p where p: "p \<in> set ps" "index df ! p = index df ! t" by auto
    hence "p < length (index df)" using ps by (auto simp: nrows_def)
    with p(2) d t have "p = t" by (simp add: nth_eq_iff_index_eq nrows_def)
    with p(1) False show False by simp
  qed
  hence "row_of_label (index (take_rows ps df)) (index df ! t) = None"
    by (simp add: row_of_label_None index_take_rows)
  thus ?thesis using False by (simp add: cell_at_def split: option.splits column.splits)
next
  case True
  hence "index df ! t \<in> set (index (take_rows ps df))" by (simp add: index_take_rows)
  then obtain j where j: "row_of_label (index (take_rows ps df)) (index df ! t) = Some j"
    by (cases "row_of_label (index (take_rows ps df)) (index df ! t)")
       (auto simp: row_of_label_None)
  from row_of_label_Some[OF j] have jl: "j < length ps"
    and je0: "map ((!) (index df)) ps ! j = index df ! t"
    by (simp_all add: index_take_rows)
  from je0 jl have je: "index df ! (ps ! j) = index df ! t" by simp
  have "ps ! j < length (index df)" using ps jl by (auto simp: nrows_def subset_iff)
  with je d t have pj: "ps ! j = t" by (simp add: nth_eq_iff_index_eq nrows_def)
  have m: "map_of (columns (take_rows ps df)) n = Some (NumCol (map ((!) v) ps))"
    using getitem_take_rows[of ps df n] g by (simp add: getitem_def split: option.splits)
  show ?thesis using True j m jl pj by (simp add: cell_at_def)
qed

lemma set_kept_rows: "set (kept_rows cols n) = {t. t < n \<and> (\<exists>nv\<in>set cols. snd nv ! t \<noteq> NaN)}"
  by (auto simp: kept_rows_def list_ex_iff)

lemma processed_filter: "processed n hs = filter (\<lambda>h. h \<le> int n) hs"
  by (simp add: processed_def not_less)

lemma all_feature_cols_names:
  "map fst (all_feature_cols n hs c tg) = concat (map feature_names (processed n hs))"
  by (simp add: all_feature_cols_def map_concat comp_def feature_cols_names)

lemma in_all_feature_cols:
  "(n, v) \<in> set (all_feature_cols k hs c tg)
     \<longleftrightarrow> (\<exists>h\<in>set hs. h \<le> int k \<and> (n, v) \<in> set (feature_cols h c tg))"
  unfolding all_feature_cols_def processed_filter set_concat set_map set_filter by blast

lemma in_predictors:
  "n \<in> set (concat (map feature_names (filter (\<lambda>h. h \<le> int k) hs)))
     \<longleftrightarrow> (\<exists>h\<in>set hs. h \<le> int k \<and> n \<in> set (feature_names h))"
  unfolding set_concat set_map set_filter by blast

lemma feature_name_has_col:
  assumes "n \<in> set (feature_names h)"
  shows "\<exists>v. (n, v) \<in> set (feature_cols h c tg)"
proof -
  have "n \<in> fst ` set (feature_cols h c tg)"
    using assms feature_cols_names[of h c tg] set_map[of fst "feature_cols h c tg"] by simp
  thus ?thesis by force
qed

lemma ohlc_loop_all_skipped:
  "\<forall>h\<in>set hs. int (nrows df) < h \<Longrightarrow> ohlc_loop df preds hs = Inr (df, preds)"
  by (induction hs) simp_all

text \<open>Claim C10.  When every horizon exceeds the number of rows, no horizon is processed, the
  predictor list is empty, and the final \<open>dropna\<close> over no columns keeps no row: the function
  returns the frame with all its rows dropped, which differs from the input whenever the
  input has a row.\<close>

theorem create_ohlc_features_all_skipped:
  assumes "\<forall>h\<in>set hs. int (nrows df) < h"
  shows "create_ohlc_features df hs = Inr (take_rows [] df, [])
       \<and> nrows (take_rows [] df) = 0
       \<and> (0 < nrows df \<longrightarrow> take_rows [] df \<noteq> df)"
proof -
  have "create_ohlc_features df hs = Inr (take_rows [] df, [])"
    using ohlc_loop_all_skipped[OF assms, of "[]"]
    by (simp add: create_ohlc_features_def and_then_def dropna_all_def)
  moreover have "nrows (take_rows [] df) = 0" by (simp add: nrows_def take_rows_def)
  ultimately show ?thesis by auto
qed

theorem create_ohlc_features_all_skipped_witness:
  "int (nrows scenario_labelled) < 10 \<and> int (nrows scenario_labelled) < 20
   \<and> create_ohlc_features scenario_labelled [10, 20]
       = Inr (\<lparr>index = [], columns = [(''close'', NumCol []), (''tomorrow'', NumCol []),
                                        (''target'', NumCol [])]\<rparr>, [])
   \<and> nrows scenario_labelled = 5"
proof -
  have n: "nrows scenario_labelled = 5" by (simp add: nrows_def scenario_labelled_def)
  have h: "\<forall>h\<in>set [10, 20]. int (nrows scenario_labelled) < h" by (simp add: n)
  have t: "take_rows [] scenario_labelled
       = \<lparr>index = [], columns = [(''close'', NumCol []), (''tomorrow'', NumCol []),
                                        (''target'', NumCol [])]\<rparr>"
    by (simp add: take_rows_def scenario_labelled_def)
  from create_ohlc_features_all_skipped[OF h] t n show ?thesis by simp
qed


text \<open>Claim C5, as the code has it.  For a frame with numeric close and target columns and
  horizons that are all at least 1, the function raises no error; the predictors are the
  nine names of every horizon \<open>h \<le> len(df)\<close>, in order; a horizon \<open>h > len(df)\<close> contributes no
  predictor; and every predictor of a processed horizon is a numeric column of the result.
  The skip test is \<open>len(df) < h\<close>: a horizon equal to the number of rows is processed.\<close>

theorem create_ohlc_features_skips:
  assumes "numeric df ''close'' = Inr c" "numeric df ''target'' = Inr tg"
    and "\<forall>h\<in>set hs. 1 \<le> h"
  shows "\<exists>out predictors. create_ohlc_features df hs = Inr (out, predictors)
       \<and> predictors = concat (map feature_names (filter (\<lambda>h. h \<le> int (nrows df)) hs))
       \<and> (\<forall>h\<in>set hs. int (nrows df) < h \<longrightarrow> set (feature_names h) \<inter> set predictors = {})
       \<and> (\<forall>h\<in>set hs. h \<le> int (nrows df) \<longrightarrow>
             (\<forall>n\<in>set (feature_names h). n \<in> set predictors
                 \<and> (\<exists>v. getitem out n = Inr (NumCol v))))"
proof -
  let ?cols = "all_feature_cols (nrows df) hs c tg"
  let ?keep = "kept_rows ?cols (nrows df)"
  let ?out = "take_rows ?keep (set_columns df ?cols)"
  let ?preds = "concat (map feature_names (filter (\<lambda>h. h \<le> int (nrows df)) hs))"
  have ok: "create_ohlc_features df hs = Inr (?out, ?preds)"
    using create_ohlc_features_ok[OF assms(1,2), of hs] assms(3)
    by (simp add: all_feature_cols_names processed_filter)
  have skipped: "\<forall>h\<in>set hs. int (nrows df) < h \<longrightarrow> set (feature_names h) \<inter> set ?preds = {}"
  proof (intro ballI impI)
    fix h assume h: "h \<in> set hs" "int (nrows df) < h"
    show "set (feature_names h) \<inter> set ?preds = {}"
    proof (rule ccontr)
      assume "set (feature_names h) \<inter> set ?preds \<noteq> {}"
      then obtain n where n: "n \<in> set (feature_names h)" "n \<in> set ?preds" by blast
      from n(2) obtain h' where "n \<in> set (feature_names h')" "h' \<le> int (nrows df)"
        unfolding in_predictors by blast
      note n(1) this
      with feature_names_disjoint[of n h h'] h(2) show False by simp
    qed
  qed
  have proc: "\<forall>h\<in>set hs. h \<le> int (nrows df) \<longrightarrow>
             (\<forall>n\<in>set (feature_names h). n \<in> set ?preds \<and> (\<exists>v. getitem ?out n = Inr (NumCol v)))"
  proof (intro ballI impI)
    fix h n assume h: "h \<in> set hs" "h \<le> int (nrows df)" and n: "n \<in> set (feature_names h)"
    have p: "n \<in> set ?preds" unfolding in_predictors using h n by blast
    from feature_name_has_col[OF n] obtain v where "(n, v) \<in> set (feature_cols h c tg)"
      by blast
    hence "(n, v) \<in> set ?cols" unfolding in_all_feature_cols using h by blast
    hence "getitem (set_columns df ?cols) n = Inr (NumCol v)" by (rule getitem_all_features)
    hence "getitem ?out n = Inr (NumCol (map ((!) v) ?keep))" by (simp add: getitem_take_rows)
    with p show "n \<in> set ?preds \<and> (\<exists>v. getitem ?out n = Inr (NumCol v))" by blast
  qed
  from ok skipped proc show ?thesis by blast
qed

lemma length_shift_list: "length (shift_list fill k xs) = length xs"
  by (auto simp: shift_list_def)

lemma length_rolling: "length (rolling h f xs) = length xs"
  by (simp add: rolling_def)

lemma rolling_nth:
  "t < length xs \<Longrightarrow>
   rolling h f xs ! t = (case window_values h t xs of None \<Rightarrow> NaN | Some w \<Rightarrow> f w)"
  by (simp add: rolling_def)

lemma window_values_take:
  assumes "take (Suc t) xs = take (Suc t) ys"
  shows "window_values h t xs = window_values h t ys"
proof (cases "0 < h \<and> h \<le> t + 1")
  case False
  then show ?thesis by (auto simp: window_values_def)
next
  case True
  have "take h (drop (t + 1 - h) xs) = drop (t + 1 - h) (take (Suc t) xs)"
    using True by (simp add: drop_take)
  moreover have "take h (drop (t + 1 - h) ys) = drop (t + 1 - h) (take (Suc t) ys)"
    using True by (simp add: drop_take)
  ultimately show ?thesis using assms by (simp add: window_values_def)
qed

lemma shift_one: "shift_list fill 1 xs = take (length xs) (fill # xs)"
  by (cases xs) (simp_all add: shift_list_def)

lemma take_shift_update:
  "take (Suc t) (shift_list fill 1 (xs[t := x])) = take (Suc t) (shift_list fill 1 xs)"
  by (simp add: shift_one take_update_cancel min_def take_Cons')

lemma trend_ignores_row:
  assumes "t < length tg"
  shows "rolling_sum h (shift_list NaN 1 (tg[t := x])) ! t = rolling_sum h (shift_list NaN 1 tg) ! t"
proof -
  have "window_values h t (shift_list NaN 1 (tg[t := x])) = window_values h t (shift_list NaN 1 tg)"
    by (rule window_values_take) (rule take_shift_update)
  thus ?thesis using assms by (simp add: rolling_sum_def rolling_nth length_shift_list)
qed

lemma feature_cols_agree_at:
  assumes "t < length tg"
  shows "list_all2 (\<lambda>a b. fst a = fst b \<and> snd a ! t = snd b ! t)
           (feature_cols h c (tg[t := x])) (feature_cols h c tg)"
  using trend_ignores_row[OF assms] by (simp add: feature_cols_def Let_def)

lemma list_all2_concat_map:
  assumes "\<And>h. list_all2 P (f h) (g h)"
  shows "list_all2 P (concat (map f hs)) (concat (map g hs))"
  by (induction hs) (simp_all add: assms list_all2_appendI)

lemma all_feature_cols_agree_at:
  assumes "t < length tg"
  shows "list_all2 (\<lambda>a b. fst a = fst b \<and> snd a ! t = snd b ! t)
           (all_feature_cols n hs c (tg[t := x])) (all_feature_cols n hs c tg)"
  unfolding all_feature_cols_def
  by (rule list_all2_concat_map) (rule feature_cols_agree_at[OF assms])

lemma kept_rows_agree:
  assumes "list_all2 (\<lambda>a b. fst a = fst b \<and> snd a ! t = snd b ! t) cols' cols"
  shows "t \<in> set (kept_rows cols' n) \<longleftrightarrow> t \<in> set (kept_rows cols n)"
proof -
  have "(\<exists>nv\<in>set cols'. snd nv ! t \<noteq> NaN) \<longleftrightarrow> (\<exists>nv\<in>set cols. snd nv ! t \<noteq> NaN)"
    using assms by (induction rule: list_all2_induct) auto
  thus ?thesis by (simp add: set_kept_rows)
qed

lemma agree_lookup:
  assumes "list_all2 (\<lambda>a b. fst a = fst b \<and> snd a ! t = snd b ! t) cols' cols"
    and "(n, v) \<in> set cols"
  shows "\<exists>v'. (n, v') \<in> set cols' \<and> v' ! t = v ! t"
  using assms by (induction rule: list_all2_induct) auto

lemma wf_numeric_length:
  assumes "wf_frame df" "numeric df n = Inr xs"
  shows "length xs = nrows df"
proof -
  from assms(2) have "map_of (columns df) n = Some (NumCol xs)"
    by (auto simp: numeric_def getitem_def and_then_def split: option.splits column.splits)
  hence "(n, NumCol xs) \<in> set (columns df)" by (rule map_of_SomeD)
  with assms(1) show ?thesis by (auto simp: wf_frame_def list_all_iff)
qed

lemma kept_rows_subset: "set (kept_rows cols n) \<subseteq> {0..<n}"
  by (auto simp: set_kept_rows)

lemma cell_at_output:
  assumes d: "distinct (index df)" and t: "t < nrows df"
    and nv: "(n, v) \<in> set (all_feature_cols k hs c tg)"
  shows "cell_at (take_rows (kept_rows (all_feature_cols k hs c tg) (nrows df))
                    (set_columns df (all_feature_cols k hs c tg))) n (index df ! t)
         = (if t \<in> set (kept_rows (all_feature_cols k hs c tg) (nrows df)) then Some (v ! t) else None)"
proof -
  let ?full = "set_columns df (all_feature_cols k hs c tg)"
  have i: "index ?full = index df" by (rule index_set_columns)
  have "cell_at (take_rows (kept_rows (all_feature_cols k hs c tg) (nrows ?full)) ?full) n (index ?full ! t)
      = (if t \<in> set (kept_rows (all_feature_cols k hs c tg) (nrows ?full)) then Some (v ! t) else None)"
  proof (rule cell_at_take_rows)
    show "distinct (index ?full)" using d by (simp add: i)
    show "t < nrows ?full" using t by (simp add: nrows_set_columns)
    show "set (kept_rows (all_feature_cols k hs c tg) (nrows ?full)) \<subseteq> {0..<nrows ?full}"
      by (rule kept_rows_subset)
    show "getitem ?full n = Inr (NumCol v)" using nv by (rule getitem_all_features)
  qed
  thus ?thesis by (simp add: i nrows_set_columns)
qed

text \<open>Claim C4.  Take a well-formed frame with distinct row labels and numeric close and target
  columns, and replace the target cell of row \<open>t\<close> by any value \<open>x\<close>.  Both runs of
  \<open>create_ohlc_features\<close> succeed with the same predictors, and for every processed horizon
  \<open>h\<close> the cell of \<open>Trend_h\<close> at the row labelled like row \<open>t\<close> is the same in both results (the
  row is kept by both runs or dropped by both).\<close>

theorem trend_ignores_current_target:
  assumes wf: "wf_frame df" and d: "distinct (index df)" and t: "t < nrows df"
    and c: "numeric df ''close'' = Inr c" and tg: "numeric df ''target'' = Inr tg"
    and hs: "\<forall>h\<in>set hs. 1 \<le> h" and h: "h \<in> set hs" "h \<le> int (nrows df)"
  shows "\<exists>out out' predictors.
           create_ohlc_features df hs = Inr (out, predictors)
         \<and> create_ohlc_features (setitem df ''target'' (NumCol (tg[t := x]))) hs
             = Inr (out', predictors)
         \<and> ''Trend_'' @ str_int h \<in> set predictors
         \<and> cell_at out' (''Trend_'' @ str_int h) (index df ! t)
             = cell_at out (''Trend_'' @ str_int h) (index df ! t)"
proof -
  let ?df' = "setitem df ''target'' (NumCol (tg[t := x]))"
  let ?n = "nrows df"
  let ?cols = "all_feature_cols ?n hs c tg"
  let ?cols' = "all_feature_cols ?n hs c (tg[t := x])"
  let ?out = "take_rows (kept_rows ?cols ?n) (set_columns df ?cols)"
  let ?out' = "take_rows (kept_rows ?cols' ?n) (set_columns ?df' ?cols')"
  let ?name = "''Trend_'' @ str_int h"
  have hs': "\<forall>h\<in>set hs. h \<le> int ?n \<longrightarrow> 1 \<le> h" using hs by simp
  have len: "length tg = ?n" using wf tg by (rule wf_numeric_length)
  have tl: "t < length tg" using t len by simp
  have n': "nrows ?df' = ?n" by (rule nrows_setitem)
  have i': "index ?df' = index df" by (rule index_setitem)
  have c': "numeric ?df' ''close'' = Inr c" using c by (simp add: numeric_setitem)
  have tg': "numeric ?df' ''target'' = Inr (tg[t := x])" by (simp add: numeric_setitem)
  have names: "map fst ?cols' = map fst ?cols" by (simp add: all_feature_cols_names)
  have r: "create_ohlc_features df hs = Inr (?out, map fst ?cols)"
    using c tg hs' by (rule create_ohlc_features_ok)
  have r': "create_ohlc_features ?df' hs = Inr (?out', map fst ?cols)"
    using create_ohlc_features_ok[OF c' tg', of hs] hs' by (simp add: n' names)
  have ag: "list_all2 (\<lambda>a b. fst a = fst b \<and> snd a ! t = snd b ! t) ?cols' ?cols"
    using tl by (rule all_feature_cols_agree_at)
  have k: "t \<in> set (kept_rows ?cols' ?n) \<longleftrightarrow> t \<in> set (kept_rows ?cols ?n)"
    using ag by (rule kept_rows_agree)
  have "(?name, rolling_sum (nat h) (shift_list NaN 1 tg)) \<in> set (feature_cols h c tg)"
    by (simp add: feature_cols_def Let_def)
  hence nv: "(?name, rolling_sum (nat h) (shift_list NaN 1 tg)) \<in> set ?cols"
    unfolding in_all_feature_cols using h by blast
  from agree_lookup[OF ag nv] obtain v' where
    nv': "(?name, v') \<in> set ?cols'" and e: "v' ! t = rolling_sum (nat h) (shift_list NaN 1 tg) ! t"
    by blast
  have p: "?name \<in> set (map fst ?cols)" using nv by force
  have t': "t < nrows ?df'" using t by (simp add: n')
  have d': "distinct (index ?df')" using d by (simp add: i')
  have "cell_at ?out ?name (index df ! t)
        = (if t \<in> set (kept_rows ?cols ?n) then Some (rolling_sum (nat h) (shift_list NaN 1 tg) ! t) else None)"
    using d t nv by (rule cell_at_output)
  moreover have "cell_at ?out' ?name (index df ! t)
        = (if t \<in> set (kept_rows ?cols' ?n) then Some (v' ! t) else None)"
    using cell_at_output[OF d' t' nv'] by (simp add: n' i')
  ultimately have "cell_at ?out' ?name (index df ! t) = cell_at ?out ?name (index df ! t)"
    using k e by simp
  with r r' p show ?thesis by blast
qed

lemma those_num_of:
  assumes "list_all (\<lambda>x. \<exists>r. x = Num r \<and> 0 \<le> r) ys"
  shows "\<exists>w. those (map num_of ys) = Some w \<and> length w = length ys \<and> (\<forall>r\<in>set w. 0 \<le> r)"
  using assms by (induction ys) auto

lemma rolling_mean_nonneg:
  assumes all: "list_all (\<lambda>x. \<exists>r. x = Num r \<and> 0 \<le> r) xs"
    and h: "0 < h" "h \<le> t + 1" and t: "t < length xs"
  shows "\<exists>g. rolling_mean h xs ! t = Num g \<and> 0 \<le> g"
proof -
  have "list_all (\<lambda>x. \<exists>r. x = Num r \<and> 0 \<le> r) (take h (drop (t + 1 - h) xs))"
    using all by (auto simp: list_all_iff dest: in_set_takeD in_set_dropD)
  from those_num_of[OF this] obtain w where
    w: "those (map num_of (take h (drop (t + 1 - h) xs))) = Some w" "\<forall>r\<in>set w. 0 \<le> r"
    by blast
  have "0 \<le> sum_list w" using w(2) by (simp add: sum_list_nonneg)
  hence "0 \<le> sum_list w / real h" by simp
  moreover have "rolling_mean h xs ! t = Num (sum_list w / real h)"
    using t h w(1) by (simp add: rolling_mean_def rolling_nth window_values_def)
  ultimately show ?thesis by blast
qed

lemma rolling_mean_defined:
  assumes "rolling_mean h xs ! t = Num m" "t < length xs"
  shows "0 < h \<and> h \<le> t + 1"
  using assms
  by (auto simp: rolling_mean_def rolling_nth window_values_def split: option.splits if_splits)

lemma fsub_no_inf:
  assumes "a \<noteq> PInf" "a \<noteq> NInf" "b \<noteq> PInf" "b \<noteq> NInf"
  shows "fsub a b \<noteq> PInf \<and> fsub a b \<noteq> NInf"
  using assms by (cases a; cases b) (simp_all add: fsub_def)

lemma diff_no_inf:
  assumes "list_all (\<lambda>x. x \<noteq> PInf \<and> x \<noteq> NInf) c"
  shows "list_all (\<lambda>x. x \<noteq> PInf \<and> x \<noteq> NInf) (diff c)"
proof -
  have s: "list_all (\<lambda>x. x \<noteq> PInf \<and> x \<noteq> NInf) (shift_list NaN 1 c)"
    unfolding shift_one list_all_iff
  proof
    fix y assume "y \<in> set (take (length c) (NaN # c))"
    hence "y \<in> set (NaN # c)" by (rule in_set_takeD)
    thus "y \<noteq> PInf \<and> y \<noteq> NInf" using assms by (auto simp: list_all_iff)
  qed
  show ?thesis
    unfolding diff_def ssub_def list_all_iff
  proof
    fix y assume "y \<in> set (map (\<lambda>(x, y). fsub x y) (zip c (shift_list NaN 1 c)))"
    then obtain a b where ab: "(a, b) \<in> set (zip c (shift_list NaN 1 c))" "y = fsub a b"
      by auto
    hence "a \<in> set c" "b \<in> set (shift_list NaN 1 c)"
      by (auto dest: set_zip_leftD set_zip_rightD)
    with assms s ab(2) show "y \<noteq> PInf \<and> y \<noteq> NInf"
      using fsub_no_inf by (simp add: list_all_iff)
  qed
qed

lemma gains_nonneg:
  assumes "list_all (\<lambda>x. x \<noteq> PInf \<and> x \<noteq> NInf) ds"
  shows "list_all (\<lambda>x. \<exists>r. x = Num r \<and> 0 \<le> r) (where_or_zero (\<lambda>d. fgt d (Num 0)) ds)"
  unfolding where_or_zero_def list_all_iff
proof
  fix y assume "y \<in> set (map (\<lambda>x. if fgt x (Num 0) then x else Num 0) ds)"
  then obtain x where x: "x \<in> set ds" "y = (if fgt x (Num 0) then x else Num 0)" by auto
  hence "x \<noteq> PInf" "x \<noteq> NInf" using assms by (auto simp: list_all_iff)
  thus "\<exists>r. y = Num r \<and> 0 \<le> r" using x(2) by (cases x) auto
qed

lemma length_diff: "length (diff c) = length c"
  by (simp add: diff_def ssub_def length_shift_list)

lemma length_rsi: "length (rsi_gain h c) = length c" "length (rsi_loss h c) = length c"
  by (simp_all add: rsi_gain_def rsi_loss_def rolling_mean_def length_rolling where_or_zero_def
      length_diff)

lemma rsi_gain_nonneg:
  assumes "list_all (\<lambda>x. x \<noteq> PInf \<and> x \<noteq> NInf) c" "t < length c"
    and "rsi_loss h c ! t = Num l"
  shows "\<exists>g. rsi_gain h c ! t = Num g \<and> 0 \<le> g"
proof -
  have "t < length (map fneg (where_or_zero (\<lambda>d. flt d (Num 0)) (diff c)))"
    using assms(2) by (simp add: where_or_zero_def length_diff)
  with assms(3) have h: "0 < h \<and> h \<le> t + 1"
    unfolding rsi_loss_def by (rule rolling_mean_defined)
  have "t < length (where_or_zero (\<lambda>d. fgt d (Num 0)) (diff c))"
    using assms(2) by (simp add: where_or_zero_def length_diff)
  with gains_nonneg[OF diff_no_inf[OF assms(1)]] h show ?thesis
    unfolding rsi_gain_def by (intro rolling_mean_nonneg) auto
qed

lemma rsi_value:
  assumes "0 \<le> g" "0 < l"
  shows "fsub (Num 100) (fdiv (Num 100) (fadd (Num 1) (fdiv (Num g) (Num l))))
         = Num (100 - 100 / (1 + g / l))"
    and "0 \<le> 100 - 100 / (1 + g / l)" and "100 - 100 / (1 + g / l) \<le> 100"
proof -
  have q: "0 \<le> g / l" using assms by simp
  hence p: "1 \<le> 1 + g / l" by simp
  hence nz: "1 + g / l \<noteq> 0" by simp
  show "fsub (Num 100) (fdiv (Num 100) (fadd (Num 1) (fdiv (Num g) (Num l))))
         = Num (100 - 100 / (1 + g / l))"
    using assms nz by (simp add: fsub_def)
  have "100 / (1 + g / l) \<le> 100 / 1" using p by (intro divide_left_mono) simp_all
  thus "0 \<le> 100 - 100 / (1 + g / l)" by simp
  have "0 \<le> 100 / (1 + g / l)" using p by simp
  thus "100 - 100 / (1 + g / l) \<le> 100" by simp
qed

text \<open>Claim C6.  Arithmetic is exact (no rounding) and the close column holds numbers or NaN,
  no infinity.  At every row \<open>t\<close> where the rolling mean \<open>loss\<close> of window \<open>h\<close> is a number \<open>l > 0\<close>,
  the rolling mean \<open>gain\<close> is a number \<open>g \<ge> 0\<close>, the row survives the final \<open>dropna\<close>, and its
  \<open>RSI_h\<close> cell is \<open>100 - 100 / (1 + g / l)\<close>, which lies in \<open>[0, 100]\<close>.\<close>

theorem rsi_in_range:
  assumes wf: "wf_frame df" and d: "distinct (index df)" and t: "t < nrows df"
    and c: "numeric df ''close'' = Inr c" and tg: "numeric df ''target'' = Inr tg"
    and fin: "list_all (\<lambda>x. x \<noteq> PInf \<and> x \<noteq> NInf) c"
    and hs: "\<forall>h\<in>set hs. 1 \<le> h" and h: "h \<in> set hs" "h \<le> int (nrows df)"
    and loss: "rsi_loss (nat h) c ! t = Num l" "0 < l"
  shows "\<exists>out predictors g.
           create_ohlc_features df hs = Inr (out, predictors)
         \<and> rsi_gain (nat h) c ! t = Num g
         \<and> cell_at out (''RSI_'' @ str_int h) (index df ! t) = Some (Num (100 - 100 / (1 + g / l)))
         \<and> 0 \<le> 100 - 100 / (1 + g / l) \<and> 100 - 100 / (1 + g / l) \<le> 100"
proof -
  let ?n = "nrows df"
  let ?cols = "all_feature_cols ?n hs c tg"
  let ?out = "take_rows (kept_rows ?cols ?n) (set_columns df ?cols)"
  let ?name = "''RSI_'' @ str_int h"
  let ?v = "map (\<lambda>rs. fsub (Num 100) (fdiv (Num 100) (fadd (Num 1) rs)))
            (sdiv (rsi_gain (nat h) c) (rsi_loss (nat h) c))"
  have hs': "\<forall>h\<in>set hs. h \<le> int ?n \<longrightarrow> 1 \<le> h" using hs by simp
  have len: "length c = ?n" using wf c by (rule wf_numeric_length)
  have tl: "t < length c" using t len by simp
  from rsi_gain_nonneg[OF fin tl loss(1)] obtain g where
    g: "rsi_gain (nat h) c ! t = Num g" "0 \<le> g" by blast
  have r: "create_ohlc_features df hs = Inr (?out, map fst ?cols)"
    using c tg hs' by (rule create_ohlc_features_ok)
  have "(?name, ?v) \<in> set (feature_cols h c tg)"
    by (simp add: feature_cols_def Let_def)
  hence nv: "(?name, ?v) \<in> set ?cols"
    unfolding in_all_feature_cols using h by blast
  have vt: "?v ! t = Num (100 - 100 / (1 + g / l))"
    using tl g(1) loss(1) rsi_value(1)[OF g(2) loss(2)] by (simp add: sdiv_def length_rsi)
  hence "\<exists>nv\<in>set ?cols. snd nv ! t \<noteq> NaN" using nv by force
  hence k: "t \<in> set (kept_rows ?cols ?n)" using t by (simp add: set_kept_rows)
  have "cell_at ?out ?name (index df ! t)
        = (if t \<in> set (kept_rows ?cols ?n) then Some (?v ! t) else None)"
    using d t nv by (rule cell_at_output)
  hence "cell_at ?out ?name (index df ! t) = Some (Num (100 - 100 / (1 + g / l)))"
    using k vt by simp
  with r g(1) rsi_value(2,3)[OF g(2) loss(2)] show ?thesis by blast
qed

lemma scenario_facts:
  "wf_frame scenario_labelled" "distinct (index scenario_labelled)" "nrows scenario_labelled = 5"
  "numeric scenario_labelled ''close'' = Inr [Num 100, Num 102, Num 101, Num 105, Num 103]"
  "numeric scenario_labelled ''target'' = Inr [Num 1, Num 0, Num 1, Num 0, Num 0]"
  "index scenario_labelled = [0, 1, 2, 3, 4]"
  by (simp_all add: wf_frame_def scenario_labelled_def nrows_def numeric_def getitem_def and_then_def)

lemma cell_at_feature:
  assumes "distinct (index df)" "t < nrows df"
    and "numeric df ''close'' = Inr c" "numeric df ''target'' = Inr tg"
    and "\<forall>h\<in>set hs. 1 \<le> h"
    and "h \<in> set hs" "h \<le> int (nrows df)" "(n, v) \<in> set (feature_cols h c tg)" "v ! t \<noteq> NaN"
    and "create_ohlc_features df hs = Inr (out, predictors)"
  shows "cell_at out n (index df ! t) = Some (v ! t)"
proof -
  let ?cols = "all_feature_cols (nrows df) hs c tg"
  have hs': "\<forall>h\<in>set hs. h \<le> int (nrows df) \<longrightarrow> 1 \<le> h" using assms(5) by simp
  have out: "out = take_rows (kept_rows ?cols (nrows df)) (set_columns df ?cols)"
    using create_ohlc_features_ok[OF assms(3,4) hs'] assms(10) by simp
  have nv: "(n, v) \<in> set ?cols" unfolding in_all_feature_cols using assms(6,7,8) by blast
  hence "\<exists>nv\<in>set ?cols. snd nv ! t \<noteq> NaN" using assms(9) by force
  hence "t \<in> set (kept_rows ?cols (nrows df))" using assms(2) by (simp add: set_kept_rows)
  thus ?thesis unfolding out using cell_at_output[OF assms(1,2) nv] by simp
qed

theorem trend_ignores_current_target_witness:
  "wf_frame scenario_labelled \<and> distinct (index scenario_labelled) \<and> 2 < nrows scenario_labelled
   \<and> numeric scenario_labelled ''close'' = Inr [Num 100, Num 102, Num 101, Num 105, Num 103]
   \<and> numeric scenario_labelled ''target'' = Inr [Num 1, Num 0, Num 1, Num 0, Num 0]
   \<and> (\<exists>out out' predictors.
        create_ohlc_features scenario_labelled [2] = Inr (out, predictors)
      \<and> create_ohlc_features
           (setitem scenario_labelled ''target'' (NumCol [Num 1, Num 0, Num 0, Num 0, Num 0])) [2]
          = Inr (out', predictors)
      \<and> cell_at out' ''Trend_2'' 2 = Some (Num 1)
      \<and> cell_at out ''Trend_2'' 2 = Some (Num 1))"
proof -
  note f = scenario_facts
  have t: "2 < nrows scenario_labelled" by (simp add: f)
  have hs: "\<forall>h\<in>set [2::int]. 1 \<le> h" by simp
  have h: "(2::int) \<in> set [2]" "2 \<le> int (nrows scenario_labelled)" by (simp_all add: f)
  have u: "[Num 1, Num 0, Num 1, Num 0, Num 0][2 := Num 0] = [Num 1, Num 0, Num 0, Num 0, Num 0]"
    by simp
  have s: "str_int 2 = ''2''" by code_simp
  have i: "index scenario_labelled ! 2 = 2" by (simp add: f)
  from trend_ignores_current_target[OF f(1,2) t f(4,5) hs h, of "Num 0"]
  obtain out out' predictors where
    r: "create_ohlc_features scenario_labelled [2] = Inr (out, predictors)"
    and r': "create_ohlc_features
           (setitem scenario_labelled ''target'' (NumCol [Num 1, Num 0, Num 0, Num 0, Num 0])) [2]
          = Inr (out', predictors)"
    and e: "cell_at out' ''Trend_2'' 2 = cell_at out ''Trend_2'' 2"
    unfolding u s i by auto
  have m: "(''Trend_2'', rolling_sum 2 (shift_list NaN 1 [Num 1, Num 0, Num 1, Num 0, Num 0]))
          \<in> set (feature_cols 2 [Num 100, Num 102, Num 101, Num 105, Num 103]
                   [Num 1, Num 0, Num 1, Num 0, Num 0])"
    by (simp add: feature_cols_def Let_def s)
  have v: "rolling_sum 2 (shift_list NaN 1 [Num 1, Num 0, Num 1, Num 0, Num 0]) ! 2 = Num 1"
    by code_simp
  have "cell_at out ''Trend_2'' (index scenario_labelled ! 2) = Some (Num 1)"
    using cell_at_feature[OF f(2) t f(4,5) hs h m _ r] v by simp
  hence "cell_at out ''Trend_2'' 2 = Some (Num 1)" by (simp add: i)
  with e r r' f t show ?thesis by auto
qed

theorem rsi_in_range_witness:
  "wf_frame scenario_labelled \<and> distinct (index scenario_labelled) \<and> 2 < nrows scenario_labelled
   \<and> numeric scenario_labelled ''close'' = Inr [Num 100, Num 102, Num 101, Num 105, Num 103]
   \<and> rsi_loss 2 [Num 100, Num 102, Num 101, Num 105, Num 103] ! 2 = Num (1 / 2)
   \<and> rsi_gain 2 [Num 100, Num 102, Num 101, Num 105, Num 103] ! 2 = Num 1
   \<and> (\<exists>out predictors.
        create_ohlc_features scenario_labelled [2] = Inr (out, predictors)
      \<and> cell_at out ''RSI_2'' 2 = Some (Num (200 / 3)))"
proof -
  note f = scenario_facts
  let ?c = "[Num 100, Num 102, Num 101, Num 105, Num 103]"
  have t: "2 < nrows scenario_labelled" by (simp add: f)
  have hs: "\<forall>h\<in>set [2::int]. 1 \<le> h" by simp
  have h: "(2::int) \<in> set [2]" "2 \<le> int (nrows scenario_labelled)" by (simp_all add: f)
  have fin: "list_all (\<lambda>x. x \<noteq> PInf \<and> x \<noteq> NInf) ?c" by simp
  have l: "rsi_loss (nat 2) ?c ! 2 = Num (1 / 2)" by code_simp
  have g: "rsi_gain (nat 2) ?c ! 2 = Num 1" by code_simp
  have lp: "(0::real) < 1 / 2" by simp
  have s: "str_int 2 = ''2''" by code_simp
  have i: "index scenario_labelled ! 2 = 2" by (simp add: f)
  from rsi_in_range[OF f(1,2) t f(4,5) fin hs h l lp]
  obtain out predictors g' where
    r: "create_ohlc_features scenario_labelled [2] = Inr (out, predictors)"
    and g': "rsi_gain (nat 2) ?c ! 2 = Num g'"
    and v: "cell_at out ''RSI_2'' 2 = Some (Num (100 - 100 / (1 + g' / (1 / 2))))"
    unfolding s i by auto
  from g g' have "g' = 1" by simp
  with v have "cell_at out ''RSI_2'' 2 = Some (Num (200 / 3))" by simp
  with r f t l g show ?thesis by auto
qed

theorem create_ohlc_features_skips_witness:
  "numeric scenario_labelled ''close'' = Inr [Num 100, Num 102, Num 101, Num 105, Num 103]
   \<and> numeric scenario_labelled ''target'' = Inr [Num 1, Num 0, Num 1, Num 0, Num 0]
   \<and> nrows scenario_labelled = 5
   \<and> (\<exists>out. create_ohlc_features scenario_labelled [2, 5, 10]
        = Inr (out, [''Close_Ratio_2'', ''Trend_2'', ''Volatility_2'', ''Momentum_2'', ''EMA_2'',
                     ''RSI_2'', ''Bollinger_Upper_2'', ''Bollinger_Lower_2'', ''Cumulative_Return_2'',
                     ''Close_Ratio_5'', ''Trend_5'', ''Volatility_5'', ''Momentum_5'', ''EMA_5'',
                     ''RSI_5'', ''Bollinger_Upper_5'', ''Bollinger_Lower_5'', ''Cumulative_Return_5'']))"
proof -
  note f = scenario_facts
  have hs: "\<forall>h\<in>set [2::int, 5, 10]. 1 \<le> h" by simp
  have p: "concat (map feature_names (filter (\<lambda>h. h \<le> int (nrows scenario_labelled)) [2, 5, 10]))
        = [''Close_Ratio_2'', ''Trend_2'', ''Volatility_2'', ''Momentum_2'', ''EMA_2'',
                     ''RSI_2'', ''Bollinger_Upper_2'', ''Bollinger_Lower_2'', ''Cumulative_Return_2'',
                     ''Close_Ratio_5'', ''Trend_5'', ''Volatility_5'', ''Momentum_5'', ''EMA_5'',
                     ''RSI_5'', ''Bollinger_Upper_5'', ''Bollinger_Lower_5'', ''Cumulative_Return_5'']"
    unfolding f by code_simp
  from create_ohlc_features_skips[OF f(4,5) hs] obtain out where
    "create_ohlc_features scenario_labelled [2, 5, 10]
       = Inr (out, concat (map feature_names (filter (\<lambda>h. h \<le> int (nrows scenario_labelled)) [2, 5, 10])))"
    by blast
  with p f show ?thesis by auto
qed

text \<open>Claim C5 as stated fails at the boundary \<open>h = len(df)\<close>: on the five scenario rows the
  horizon 5 is not skipped, and its nine predictors are returned.\<close>

theorem create_ohlc_features_boundary_counterexample:
  "int (nrows scenario_labelled) \<le> 5
   \<and> map_sum id snd (create_ohlc_features scenario_labelled [5])
       = Inr [''Close_Ratio_5'', ''Trend_5'', ''Volatility_5'', ''Momentum_5'', ''EMA_5'',
              ''RSI_5'', ''Bollinger_Upper_5'', ''Bollinger_Lower_5'', ''Cumulative_Return_5'']"
proof -
  note f = scenario_facts
  have hs: "\<forall>h\<in>set [5::int]. h \<le> int (nrows scenario_labelled) \<longrightarrow> 1 \<le> h" by simp
  have p: "map fst (all_feature_cols (nrows scenario_labelled) [5]
             [Num 100, Num 102, Num 101, Num 105, Num 103] [Num 1, Num 0, Num 1, Num 0, Num 0])
        = [''Close_Ratio_5'', ''Trend_5'', ''Volatility_5'', ''Momentum_5'', ''EMA_5'',
              ''RSI_5'', ''Bollinger_Upper_5'', ''Bollinger_Lower_5'', ''Cumulative_Return_5'']"
    unfolding all_feature_cols_names f by code_simp
  show ?thesis
    using create_ohlc_features_ok[OF f(4,5) hs] p by (simp add: f)
qed

section \<open>Calendar features and announcement tables\<close>

lemma dt_setitem:
  "dt (setitem df n c) n' = (if n' = n then (case c of DateCol ds \<Rightarrow> Inr ds | _ \<Rightarrow> Inl AttributeError) else dt df n')"
  by (simp add: dt_def getitem_setitem and_then_def)

lemma numeric_setitem_any:
  "numeric (setitem df n c) n' = (if n' = n then (case c of NumCol xs \<Rightarrow> Inr xs | _ \<Rightarrow> Inl TypeError) else numeric df n')"
  by (simp add: numeric_def getitem_setitem and_then_def)

lemma create_calendar_features_ok:
  assumes g: "getitem df date_col = Inr c" and p: "pd_to_datetime parse_dates c = Inr ds"
    and n: "date_col \<notin> set calendar_names"
  shows "create_calendar_features parse_dates df date_col
         = Inr (foldl (\<lambda>d nc. setitem d (fst nc) (snd nc)) (setitem df date_col (DateCol ds))
                  (calendar_cols ds), calendar_names)"
  using n
  by (simp add: create_calendar_features_def g p and_then_def Let_def dt_setitem
      numeric_setitem_any calendar_names_def calendar_cols_def dt_int_def dt_flag_def)

lemma getitem_foldl_setitem:
  "getitem (foldl (\<lambda>d nc. setitem d (fst nc) (snd nc)) df cols) n
     = (case map_of (rev cols) n of Some c \<Rightarrow> Inr c | None \<Rightarrow> getitem df n)"
proof (induction cols arbitrary: df)
  case Nil
  then show ?case by simp
next
  case (Cons nc cols)
  show ?case
    unfolding foldl_Cons Cons.IH
    by (cases nc) (auto simp: getitem_setitem map_add_def split: option.splits)
qed

lemma index_foldl_setitem:
  "index (foldl (\<lambda>d nc. setitem d (fst nc) (snd nc)) df cols) = index df"
  by (induction cols arbitrary: df) (simp_all add: index_setitem)

lemma calendar_cols_names: "map fst (calendar_cols ds) = calendar_names"
  by (simp add: calendar_cols_def calendar_names_def Let_def)

lemma calendar_cols_numeric:
  assumes "(n, c) \<in> set (calendar_cols ds)"
  shows "\<exists>v. c = NumCol v"
  using assms by (auto simp: calendar_cols_def Let_def dt_int_def dt_flag_def)

text \<open>Claim C8, as the code has it.  When the date column exists, converts to timestamps, and
  is not named like one of the twelve calendar columns, the function succeeds and returns the
  twelve names; no row is dropped (the row labels are unchanged); the date column is replaced
  by its conversion, so it is unchanged when it already held timestamps; every other column
  whose name is not one of the twelve is unchanged; and the twelve names are numeric columns
  of the result (a pre-existing column of such a name is overwritten).\<close>

theorem create_calendar_features_frame:
  assumes g: "getitem df date_col = Inr c" and p: "pd_to_datetime parse_dates c = Inr ds"
    and n: "date_col \<notin> set calendar_names"
  shows "\<exists>out. create_calendar_features parse_dates df date_col = Inr (out, calendar_names)
       \<and> index out = index df
       \<and> getitem out date_col = Inr (DateCol ds)
       \<and> (\<forall>ds'. c = DateCol ds' \<longrightarrow> getitem out date_col = getitem df date_col)
       \<and> (\<forall>name. name \<noteq> date_col \<and> name \<notin> set calendar_names \<longrightarrow>
             getitem out name = getitem df name)
       \<and> (\<forall>name\<in>set calendar_names. \<exists>v. getitem out name = Inr (NumCol v))"
proof -
  let ?df1 = "setitem df date_col (DateCol ds)"
  let ?out = "foldl (\<lambda>d nc. setitem d (fst nc) (snd nc)) ?df1 (calendar_cols ds)"
  have r: "create_calendar_features parse_dates df date_col = Inr (?out, calendar_names)"
    using g p n by (rule create_calendar_features_ok)
  have i: "index ?out = index df" by (simp add: index_foldl_setitem index_setitem)
  have keys: "fst ` set (rev (calendar_cols ds)) = set calendar_names"
    using calendar_cols_names[of ds] by (metis set_map set_rev)
  have other: "\<And>name. name \<notin> set calendar_names \<Longrightarrow> getitem ?out name = getitem ?df1 name"
  proof -
    fix name assume "name \<notin> set calendar_names"
    hence "map_of (rev (calendar_cols ds)) name = None"
      using keys by (simp add: map_of_eq_None_iff)
    thus "getitem ?out name = getitem ?df1 name" by (simp add: getitem_foldl_setitem)
  qed
  have dc: "getitem ?out date_col = Inr (DateCol ds)"
    using other[OF n] by (simp add: getitem_setitem)
  have same: "\<forall>ds'. c = DateCol ds' \<longrightarrow> getitem ?out date_col = getitem df date_col"
    using dc g p by (auto simp: pd_to_datetime_def)
  have frame: "\<forall>name. name \<noteq> date_col \<and> name \<notin> set calendar_names \<longrightarrow>
             getitem ?out name = getitem df name"
    using other by (simp add: getitem_setitem)
  have new: "\<forall>name\<in>set calendar_names. \<exists>v. getitem ?out name = Inr (NumCol v)"
  proof
    fix name assume "name \<in> set calendar_names"
    hence "name \<in> fst ` set (rev (calendar_cols ds))" using keys by simp
    then obtain c' where c': "map_of (rev (calendar_cols ds)) name = Some c'"
      by (cases "map_of (rev (calendar_cols ds)) name") (auto simp: map_of_eq_None_iff)
    hence "(name, c') \<in> set (rev (calendar_cols ds))" by (rule map_of_SomeD)
    hence "(name, c') \<in> set (calendar_cols ds)" by simp
    from calendar_cols_numeric[OF this] obtain v where "c' = NumCol v" by blast
    with c' show "\<exists>v. getitem ?out name = Inr (NumCol v)"
      by (simp add: getitem_foldl_setitem)
  qed
  from r i dc same frame new show ?thesis by blast
qed

lemma new_year_day:
  "weekday \<lparr>year = 2024, month = 1, day = 1\<rparr> = 0"
  "isoweek \<lparr>year = 2024, month = 1, day = 1\<rparr> = 1"
  "quarter \<lparr>year = 2024, month = 1, day = 1\<rparr> = 1"
  "is_month_start \<lparr>year = 2024, month = 1, day = 1\<rparr>"
  "\<not> is_month_end \<lparr>year = 2024, month = 1, day = 1\<rparr>"
  by code_simp+

theorem create_calendar_features_frame_witness:
  "getitem with_year_column ''date'' = Inr (DateCol [Some \<lparr>year = 2024, month = 1, day = 1\<rparr>])
   \<and> pd_to_datetime parse_iso_sample (DateCol [Some \<lparr>year = 2024, month = 1, day = 1\<rparr>])
       = Inr [Some \<lparr>year = 2024, month = 1, day = 1\<rparr>]
   \<and> ''date'' \<notin> set calendar_names
   \<and> (\<exists>out. create_calendar_features parse_iso_sample with_year_column ''date''
               = Inr (out, calendar_names)
        \<and> index out = [0]
        \<and> getitem out ''date'' = Inr (DateCol [Some \<lparr>year = 2024, month = 1, day = 1\<rparr>])
        \<and> getitem out ''day_of_week'' = Inr (NumCol [Num 0])
        \<and> getitem out ''day_of_week_sin'' = Inr (NumCol [Num 0])
        \<and> getitem out ''day_of_week_cos'' = Inr (NumCol [Num 1]))"
proof -
  let ?d = "\<lparr>year = 2024, month = 1, day = 1\<rparr>"
  have g: "getitem with_year_column ''date'' = Inr (DateCol [Some ?d])"
    by (simp add: getitem_def with_year_column_def)
  have p: "pd_to_datetime parse_iso_sample (DateCol [Some ?d]) = Inr [Some ?d]"
    by (simp add: pd_to_datetime_def)
  have n: "''date'' \<notin> set calendar_names" by (simp add: calendar_names_def)
  have ix: "index with_year_column = [0]" by (simp add: with_year_column_def)
  from create_calendar_features_frame[OF g p n] obtain out where
    r: "create_calendar_features parse_iso_sample with_year_column ''date'' = Inr (out, calendar_names)"
    and i: "index out = [0]" and dc: "getitem out ''date'' = Inr (DateCol [Some ?d])"
    unfolding ix by blast
  have out: "out = foldl (\<lambda>d nc. setitem d (fst nc) (snd nc))
      (setitem with_year_column ''date'' (DateCol [Some ?d])) (calendar_cols [Some ?d])"
    using create_calendar_features_ok[OF g p n] r by simp
  have "getitem out ''day_of_week'' = Inr (NumCol [Num 0])"
    "getitem out ''day_of_week_sin'' = Inr (NumCol [Num 0])"
    "getitem out ''day_of_week_cos'' = Inr (NumCol [Num 1])"
    unfolding out
    by (simp_all add: getitem_setitem calendar_cols_def Let_def dt_int_def new_year_day
        cyclic_angle_def)
  with g p n r i dc show ?thesis by blast
qed

text \<open>Claim C8 as stated fails on two one-row frames: a date column of strings is returned as
  timestamps, and a pre-existing column named \<open>year\<close> holding 7 is returned holding 2024.\<close>

theorem create_calendar_features_overwrites_counterexample:
  "getitem string_dated ''date'' = Inr (StrCol [Some ''2024-01-01''])
   \<and> column_of_result (create_calendar_features parse_iso_sample string_dated ''date'') ''date''
       = Inr (DateCol [Some \<lparr>year = 2024, month = 1, day = 1\<rparr>])
   \<and> getitem with_year_column ''year'' = Inr (NumCol [Num 7])
   \<and> column_of_result (create_calendar_features parse_iso_sample with_year_column ''date'') ''year''
       = Inr (NumCol [Num 2024])"
proof -
  let ?d = "\<lparr>year = 2024, month = 1, day = 1\<rparr>"
  have n: "''date'' \<notin> set calendar_names" by (simp add: calendar_names_def)
  have g1: "getitem string_dated ''date'' = Inr (StrCol [Some ''2024-01-01''])"
    by (simp add: getitem_def string_dated_def)
  have p1: "pd_to_datetime parse_iso_sample (StrCol [Some ''2024-01-01'']) = Inr [Some ?d]"
    by (simp add: pd_to_datetime_def parse_iso_sample_def)
  have a: "column_of_result (create_calendar_features parse_iso_sample string_dated ''date'') ''date''
       = Inr (DateCol [Some ?d])"
    unfolding create_calendar_features_ok[OF g1 p1 n]
    by (simp add: column_of_result_def and_then_def getitem_foldl_setitem calendar_cols_def Let_def
        getitem_setitem)
  have g2: "getitem with_year_column ''date'' = Inr (DateCol [Some ?d])"
    by (simp add: getitem_def with_year_column_def)
  have p2: "pd_to_datetime parse_iso_sample (DateCol [Some ?d]) = Inr [Some ?d]"
    by (simp add: pd_to_datetime_def)
  have y: "getitem with_year_column ''year'' = Inr (NumCol [Num 7])"
    by (simp add: getitem_def with_year_column_def)
  have b: "column_of_result (create_calendar_features parse_iso_sample with_year_column ''date'') ''year''
       = Inr (NumCol [Num 2024])"
    unfolding create_calendar_features_ok[OF g2 p2 n]
    by (simp add: column_of_result_def and_then_def getitem_setitem calendar_cols_def Let_def
        dt_int_def)
  from g1 a y b show ?thesis by simp
qed

lemma days_until_result:
  assumes "days_until k t = Inr t'"
  shows "\<exists>ds. getitem t ''date'' = Inr (DateCol ds)
           \<and> t' = setitem (setitem t ''next_announcement_date'' (DateCol (shift_list None k ds)))
                     ''days_until_next_announcement''
                     (NumCol (map (\<lambda>(x, y). day_gap x y) (zip (shift_list None k ds) ds)))"
proof -
  from assms obtain d where d: "getitem t ''date'' = Inr d"
    by (cases "getitem t ''date''") (simp_all add: days_until_def and_then_def)
  show ?thesis
  proof (cases d)
    case (DateCol ds)
    with assms d show ?thesis
      by (simp add: days_until_def and_then_def Let_def getitem_setitem)
  next
    case (NumCol xs)
    with assms d show ?thesis
      by (simp add: days_until_def and_then_def Let_def getitem_setitem)
  next
    case (StrCol ss)
    with assms d show ?thesis
      by (simp add: days_until_def and_then_def Let_def getitem_setitem split: if_splits)
  qed
qed

lemma map_of_filter_names:
  "map_of (filter (\<lambda>nc. fst nc \<notin> set names) al) n = (if n \<in> set names then None else map_of al n)"
  by (induction al) auto

lemma getitem_drop_columns:
  assumes "drop_columns df names = Inr out" "n \<notin> set names"
  shows "getitem out n = getitem df n"
proof -
  from assms(1) have "out = df\<lparr>columns := filter (\<lambda>nc. fst nc \<notin> set names) (columns df)\<rparr>"
    by (simp add: drop_columns_def split: if_splits)
  thus ?thesis using assms(2) by (simp add: getitem_def map_of_filter_names)
qed

lemma gaps_next:
  "map (\<lambda>(x, y). day_gap x y) (zip (shift_list None (- 1) ds) ds)
   = map (\<lambda>k. if k + 1 < length ds then day_gap (ds ! (k + 1)) (ds ! k) else NaN) [0..<length ds]"
proof (rule nth_equalityI)
  show "length (map (\<lambda>(x, y). day_gap x y) (zip (shift_list None (- 1) ds) ds))
        = length (map (\<lambda>k. if k + 1 < length ds then day_gap (ds ! (k + 1)) (ds ! k) else NaN) [0..<length ds])"
    by (simp add: length_shift_list)
next
  fix i assume "i < length (map (\<lambda>(x, y). day_gap x y) (zip (shift_list None (- 1) ds) ds))"
  hence i: "i < length ds" by (simp add: length_shift_list)
  thus "map (\<lambda>(x, y). day_gap x y) (zip (shift_list None (- 1) ds) ds) ! i
        = map (\<lambda>k. if k + 1 < length ds then day_gap (ds ! (k + 1)) (ds ! k) else NaN) [0..<length ds] ! i"
    by (simp add: length_shift_list shift_back_one day_gap_def)
qed

lemma gaps_previous:
  "map (\<lambda>(x, y). day_gap x y) (zip (shift_list None 1 ds) ds)
   = map (\<lambda>k. if 0 < k then day_gap (ds ! (k - 1)) (ds ! k) else NaN) [0..<length ds]"
proof (rule nth_equalityI)
  show "length (map (\<lambda>(x, y). day_gap x y) (zip (shift_list None 1 ds) ds))
        = length (map (\<lambda>k. if 0 < k then day_gap (ds ! (k - 1)) (ds ! k) else NaN) [0..<length ds])"
    by (simp add: length_shift_list)
next
  fix i assume "i < length (map (\<lambda>(x, y). day_gap x y) (zip (shift_list None 1 ds) ds))"
  hence i: "i < length ds" by (simp add: length_shift_list)
  thus "map (\<lambda>(x, y). day_gap x y) (zip (shift_list None 1 ds) ds) ! i
        = map (\<lambda>k. if 0 < k then day_gap (ds ! (k - 1)) (ds ! k) else NaN) [0..<length ds] ! i"
    by (cases i) (simp_all add: length_shift_list shift_one day_gap_def)
qed

lemma announcement_table_days:
  assumes "announcement_table flag change strptime raw = Inr out"
  shows "\<exists>ds. getitem out ''date'' = Inr (DateCol ds)
       \<and> getitem out ''days_until_next_announcement''
           = Inr (NumCol (map (\<lambda>k. if k + 1 < length ds then day_gap (ds ! (k + 1)) (ds ! k) else NaN)
                            [0..<length ds]))"
proof -
  from assms obtain t3 t4 where
    a: "days_until (- 1) t3 = Inr t4"
    and b: "drop_columns t4 [''time'', ''previous'', ''forecast'', ''actual'',
                        ''next_announcement_date''] = Inr out"
    by (auto simp: announcement_table_def and_then_def Let_def split: sum.splits)
  from days_until_result[OF a] obtain ds where
    t4: "t4 = setitem (setitem t3 ''next_announcement_date'' (DateCol (shift_list None (- 1) ds)))
                     ''days_until_next_announcement''
                     (NumCol (map (\<lambda>(x, y). day_gap x y) (zip (shift_list None (- 1) ds) ds)))"
    and d: "getitem t3 ''date'' = Inr (DateCol ds)"
    by blast
  have "getitem out ''date'' = getitem t4 ''date''"
    using b by (rule getitem_drop_columns) simp
  hence 1: "getitem out ''date'' = Inr (DateCol ds)"
    using d by (simp add: t4 getitem_setitem)
  have "getitem out ''days_until_next_announcement'' = getitem t4 ''days_until_next_announcement''"
    using b by (rule getitem_drop_columns) simp
  hence 2: "getitem out ''days_until_next_announcement''
           = Inr (NumCol (map (\<lambda>k. if k + 1 < length ds then day_gap (ds ! (k + 1)) (ds ! k) else NaN)
                            [0..<length ds]))"
    by (simp add: t4 getitem_setitem gaps_next)
  from 1 2 show ?thesis by blast
qed

lemma interest_rates_days:
  assumes "interest_rates raw = Inr out"
  shows "\<exists>ds. getitem out ''date'' = Inr (DateCol ds)
       \<and> getitem out ''days_until_next_announcement''
           = Inr (NumCol (map (\<lambda>k. if 0 < k then day_gap (ds ! (k - 1)) (ds ! k) else NaN)
                            [0..<length ds]))"
proof -
  from assms obtain t3 t4 where
    a: "days_until 1 t3 = Inr t4"
    and b: "drop_columns t4 [''time'', ''previous'', ''forecast'', ''actual''] = Inr out"
    by (auto simp: interest_rates_def and_then_def Let_def split: sum.splits)
  from days_until_result[OF a] obtain ds where
    t4: "t4 = setitem (setitem t3 ''next_announcement_date'' (DateCol (shift_list None 1 ds)))
                     ''days_until_next_announcement''
                     (NumCol (map (\<lambda>(x, y). day_gap x y) (zip (shift_list None 1 ds) ds)))"
    and d: "getitem t3 ''date'' = Inr (DateCol ds)"
    by blast
  have "getitem out ''date'' = getitem t4 ''date''"
    using b by (rule getitem_drop_columns) simp
  hence 1: "getitem out ''date'' = Inr (DateCol ds)"
    using d by (simp add: t4 getitem_setitem)
  have "getitem out ''days_until_next_announcement'' = getitem t4 ''days_until_next_announcement''"
    using b by (rule getitem_drop_columns) simp
  hence 2: "getitem out ''days_until_next_announcement''
           = Inr (NumCol (map (\<lambda>k. if 0 < k then day_gap (ds ! (k - 1)) (ds ! k) else NaN)
                            [0..<length ds]))"
    by (simp add: t4 getitem_setitem gaps_previous)
  from 1 2 show ?thesis by blast
qed

text \<open>Claim C7.  Whenever the unemployment-rate or the CPI cell succeeds, its
  \<open>days_until_next_announcement\<close> at row \<open>k\<close> is the day count from the date of row \<open>k\<close> to the date
  of row \<open>k + 1\<close> of the table, and NaN at the last row; whenever the Fed-rate cell succeeds,
  it is the day count from the date of row \<open>k\<close> to the date of row \<open>k - 1\<close>, and NaN at the first
  row.  (\<open>day_gap a b\<close> is the number of days from \<open>b\<close> to \<open>a\<close>, NaN when either is NaT.)\<close>

theorem days_until_next_direction:
  "(un_rate strptime raw = Inr out \<longrightarrow>
      (\<exists>ds. getitem out ''date'' = Inr (DateCol ds)
         \<and> getitem out ''days_until_next_announcement''
             = Inr (NumCol (map (\<lambda>k. if k + 1 < length ds then day_gap (ds ! (k + 1)) (ds ! k) else NaN)
                              [0..<length ds]))))
   \<and> (cpi strptime raw = Inr out \<longrightarrow>
      (\<exists>ds. getitem out ''date'' = Inr (DateCol ds)
         \<and> getitem out ''days_until_next_announcement''
             = Inr (NumCol (map (\<lambda>k. if k + 1 < length ds then day_gap (ds ! (k + 1)) (ds ! k) else NaN)
                              [0..<length ds]))))
   \<and> (interest_rates raw = Inr out \<longrightarrow>
      (\<exists>ds. getitem out ''date'' = Inr (DateCol ds)
         \<and> getitem out ''days_until_next_announcement''
             = Inr (NumCol (map (\<lambda>k. if 0 < k then day_gap (ds ! (k - 1)) (ds ! k) else NaN)
                              [0..<length ds]))))"
  using announcement_table_days[of "''un_announcement''" "''unempl_change''" strptime raw out]
    announcement_table_days[of "''cpi_announcement''" "''cpi_change''" strptime raw out]
    interest_rates_days[of raw out]
  unfolding un_rate_def cpi_def by blast

theorem days_until_next_direction_witness:
  "cpi strptime_sample cpi_sheet
     = Inr \<lparr>index = [0, 1, 2],
            columns = [(''date'', DateCol [Some \<lparr>year = 2024, month = 11, day = 13\<rparr>,
                                          Some \<lparr>year = 2024, month = 10, day = 10\<rparr>,
                                          Some \<lparr>year = 2024, month = 9, day = 11\<rparr>]),
                       (''cpi_announcement'', NumCol [Num 1, Num 1, Num 1]),
                       (''cpi_change'', NumCol [NaN, Num (- (1 / 1000)), Num 0]),
                       (''days_until_next_announcement'', NumCol [Num (- 34), Num (- 29), NaN])]\<rparr>
   \<and> un_rate strptime_sample cpi_sheet
     = Inr \<lparr>index = [0, 1, 2],
            columns = [(''date'', DateCol [Some \<lparr>year = 2024, month = 11, day = 13\<rparr>,
                                          Some \<lparr>year = 2024, month = 10, day = 10\<rparr>,
                                          Some \<lparr>year = 2024, month = 9, day = 11\<rparr>]),
                       (''un_announcement'', NumCol [Num 1, Num 1, Num 1]),
                       (''unempl_change'', NumCol [NaN, Num (- (1 / 1000)), Num 0]),
                       (''days_until_next_announcement'', NumCol [Num (- 34), Num (- 29), NaN])]\<rparr>
   \<and> interest_rates fed_sheet
     = Inr \<lparr>index = [0, 1, 2],
            columns = [(''date'', DateCol [Some \<lparr>year = 2024, month = 11, day = 7\<rparr>,
                                          Some \<lparr>year = 2024, month = 9, day = 18\<rparr>,
                                          Some \<lparr>year = 2024, month = 7, day = 31\<rparr>]),
                       (''interest_announcement'', NumCol [Num 1, Num 1, Num 1]),
                       (''interest_change'', NumCol [Num (- (1 / 400)), Num (- (1 / 400)), Num 0]),
                       (''next_announcement_date'',
                          DateCol [None, Some \<lparr>year = 2024, month = 11, day = 7\<rparr>,
                                   Some \<lparr>year = 2024, month = 9, day = 18\<rparr>]),
                       (''days_until_next_announcement'', NumCol [NaN, Num 50, Num 49])]\<rparr>
   \<and> day_gap (Some \<lparr>year = 2024, month = 10, day = 10\<rparr>) (Some \<lparr>year = 2024, month = 11, day = 13\<rparr>)
       = Num (- 34)
   \<and> day_gap (Some \<lparr>year = 2024, month = 11, day = 7\<rparr>) (Some \<lparr>year = 2024, month = 9, day = 18\<rparr>)
       = Num 50"
proof -
  let ?co = "\<lparr>index = [0, 1, 2],
            columns = [(''date'', DateCol [Some \<lparr>year = 2024, month = 11, day = 13\<rparr>,
                                          Some \<lparr>year = 2024, month = 10, day = 10\<rparr>,
                                          Some \<lparr>year = 2024, month = 9, day = 11\<rparr>]),
                       (''cpi_announcement'', NumCol [Num 1, Num 1, Num 1]),
                       (''cpi_change'', NumCol [NaN, Num (- (1 / 1000)), Num 0]),
                       (''days_until_next_announcement'', NumCol [Num (- 34), Num (- 29), NaN])]\<rparr>"
  let ?fo = "\<lparr>index = [0, 1, 2],
            columns = [(''date'', DateCol [Some \<lparr>year = 2024, month = 11, day = 7\<rparr>,
                                          Some \<lparr>year = 2024, month = 9, day = 18\<rparr>,
                                          Some \<lparr>year = 2024, month = 7, day = 31\<rparr>]),
                       (''interest_announcement'', NumCol [Num 1, Num 1, Num 1]),
                       (''interest_change'', NumCol [Num (- (1 / 400)), Num (- (1 / 400)), Num 0]),
                       (''next_announcement_date'',
                          DateCol [None, Some \<lparr>year = 2024, month = 11, day = 7\<rparr>,
                                   Some \<lparr>year = 2024, month = 9, day = 18\<rparr>]),
                       (''days_until_next_announcement'', NumCol [NaN, Num 50, Num 49])]\<rparr>"
  have c: "cpi strptime_sample cpi_sheet = Inr ?co" by code_simp
  have u: "un_rate strptime_sample cpi_sheet
     = Inr \<lparr>index = [0, 1, 2],
            columns = [(''date'', DateCol [Some \<lparr>year = 2024, month = 11, day = 13\<rparr>,
                                          Some \<lparr>year = 2024, month = 10, day = 10\<rparr>,
                                          Some \<lparr>year = 2024, month = 9, day = 11\<rparr>]),
                       (''un_announcement'', NumCol [Num 1, Num 1, Num 1]),
                       (''unempl_change'', NumCol [NaN, Num (- (1 / 1000)), Num 0]),
                       (''days_until_next_announcement'', NumCol [Num (- 34), Num (- 29), NaN])]\<rparr>"
    by code_simp
  have f: "interest_rates fed_sheet = Inr ?fo" by code_simp
  from days_until_next_direction[of strptime_sample cpi_sheet ?co] c
  obtain ds where ds: "getitem ?co ''date'' = Inr (DateCol ds)"
    and dd: "getitem ?co ''days_until_next_announcement''
             = Inr (NumCol (map (\<lambda>k. if k + 1 < length ds then day_gap (ds ! (k + 1)) (ds ! k) else NaN)
                              [0..<length ds]))"
    by blast
  from ds have dse: "ds = [Some \<lparr>year = 2024, month = 11, day = 13\<rparr>,
                           Some \<lparr>year = 2024, month = 10, day = 10\<rparr>,
                           Some \<lparr>year = 2024, month = 9, day = 11\<rparr>]"
    by (simp add: getitem_def)
  from dd have "map (\<lambda>k. if k + 1 < length ds then day_gap (ds ! (k + 1)) (ds ! k) else NaN)
                  [0..<length ds] = [Num (- 34), Num (- 29), NaN]"
    by (simp add: getitem_def)
  hence g1: "day_gap (Some \<lparr>year = 2024, month = 10, day = 10\<rparr>)
                     (Some \<lparr>year = 2024, month = 11, day = 13\<rparr>) = Num (- 34)"
    unfolding dse by (simp add: upt_rec[of 0 "Suc _"])
  from days_until_next_direction[of strptime_sample fed_sheet ?fo] f
  obtain es where es: "getitem ?fo ''date'' = Inr (DateCol es)"
    and ee: "getitem ?fo ''days_until_next_announcement''
             = Inr (NumCol (map (\<lambda>k. if 0 < k then day_gap (es ! (k - 1)) (es ! k) else NaN)
                              [0..<length es]))"
    by blast
  from es have ese: "es = [Some \<lparr>year = 2024, month = 11, day = 7\<rparr>,
                           Some \<lparr>year = 2024, month = 9, day = 18\<rparr>,
                           Some \<lparr>year = 2024, month = 7, day = 31\<rparr>]"
    by (simp add: getitem_def)
  from ee have "map (\<lambda>k. if 0 < k then day_gap (es ! (k - 1)) (es ! k) else NaN)
                  [0..<length es] = [NaN, Num 50, Num 49]"
    by (simp add: getitem_def)
  hence g2: "day_gap (Some \<lparr>year = 2024, month = 11, day = 7\<rparr>)
                     (Some \<lparr>year = 2024, month = 9, day = 18\<rparr>) = Num 50"
    unfolding ese by (simp add: upt_rec[of _ "Suc _"])
  from c u f g1 g2 show ?thesis by simp
qed

end
